theory Spec2Isabelle
  imports Complex_Main
begin

text \<open>
  A model of the class \<open>ClusterSeed\<close> of
  \<^verbatim>\<open>sage/combinat/cluster_algebra_quiver/cluster_seed.py\<close>: the seed as a record of its
  attributes, its methods as functions of the seed, exceptions as values.  A method that
  updates the seed in place returns the seed after the call next to its outcome.

  The methods use three collaborators that are not among the sources: integer matrices
  with their mutation, the quiver built from a matrix, and the fraction field of a
  polynomial ring over the rationals.  The exchange relation of \<open>mutate\<close> only uses the
  operations \<open>1\<close>, \<open>*\<close>, \<open>**\<close>, \<open>+\<close> and the inverse of the field, so \<open>mutate\<close> is
  defined for every type with these operations; its laws are proved for every field.
  The scenarios are evaluated on fractions of polynomials with rational coefficients.
\<close>

section \<open>Errors\<close>

text \<open>
  Every error of \<^verbatim>\<open>cluster_seed.py\<close> is a Python \<^verbatim>\<open>ValueError\<close> told apart by its
  message; the constructors below carry the names the specification gives to these
  messages.  \<open>ZeroDivisionError\<close> and \<open>IndexError\<close> are the built-in exceptions of the field
  arithmetic and of list and matrix indexing.
\<close>

datatype precondition =
    NoPrincipalCoefficients \<comment> \<open>"No principal coefficients initialized. ..."\<close>
  | MatrixNotSquare \<comment> \<open>"The b-matrix is not square. ..."\<close>
  | RankMismatch \<comment> \<open>"... only defined if the number of frozen variables and the number of
      exchangeable variables coincide"\<close>

datatype error =
    InvalidArgument \<comment> \<open>"The quiver can only be mutated at a vertex or at a sequence of vertices"\<close>
  | InplaceNotBoolean \<comment> \<open>"The second parameter must be boolean. ..."\<close>
  | InvalidVertex int \<comment> \<open>"The quiver cannot be mutated at the vertex v"\<close>
  | InvalidMode \<comment> \<open>"The parameter `return_output` can only be `seed`, `matrix`, or `var`."\<close>
  | IndexOutOfRange int \<comment> \<open>"The cluster seed does not have a cluster variable of index k." and
      its siblings in \<open>x\<close>, \<open>y\<close>, \<open>c_vector\<close>\<close>
  | PreconditionUnmet precondition
  | LengthMismatch \<comment> \<open>"The number of given cluster variables is wrong"\<close>
  | NotInField \<comment> \<open>"The cluster variables are not all contained in ..."\<close>
  | ZeroDivisionError
  | IndexError

section \<open>Exchange matrices\<close>

text \<open>
  Modelled from the spec: the integer matrices of the matrix library, which is not among
  the sources.  A matrix is its number of columns and the list of its rows; the seed
  keeps an \<open>(n+m) \<times> n\<close> matrix in \<open>_M\<close>.  The operations the seed uses are the read of
  an entry, the identity matrix, stacking, and the mutation at an index.
\<close>

record matrix =
  ncols :: nat
  rows :: "int list list"

definition nrows :: "matrix \<Rightarrow> nat" where
  "nrows A = length (rows A)"

text \<open>\<open>A[i,j]\<close> for non-negative indices; \<open>None\<close> where Sage raises \<open>IndexError\<close>.\<close>

definition entry :: "matrix \<Rightarrow> nat \<Rightarrow> nat \<Rightarrow> int option" where
  "entry A i j =
     (if i < length (rows A) \<and> j < length (rows A ! i) then Some (rows A ! i ! j) else None)"

definition identity_matrix :: "nat \<Rightarrow> matrix" where
  "identity_matrix n =
     \<lparr>ncols = n, rows = map (\<lambda>i. map (\<lambda>j. if i = j then 1 else 0) [0..<n]) [0..<n]\<rparr>"

text \<open>
  \<open>A.stack(B)\<close>: the rows of \<open>B\<close> below the rows of \<open>A\<close>.  The callers here stack an
  identity matrix with as many columns as \<open>A\<close>.
\<close>

definition stack :: "matrix \<Rightarrow> matrix \<Rightarrow> matrix" where
  "stack A B = \<lparr>ncols = ncols A, rows = rows A @ rows B\<rparr>"

text \<open>
  Modelled from the spec: the in-place matrix mutation \<open>_M.mutate(k)\<close> of the matrix
  library, which is not among the sources.  The specification gives its formula: the
  entries of row \<open>k\<close> and of column \<open>k\<close> change sign, and for \<open>i, j \<noteq> k\<close>
  \<open>M'[i,j] = M[i,j] + sign(M[i,k]) \<sqdot> max(0, M[i,k] \<sqdot> M[k,j])\<close>.
\<close>

definition matrix_mutate :: "nat \<Rightarrow> matrix \<Rightarrow> matrix" where
  "matrix_mutate k A =
     A\<lparr>rows :=
        map (\<lambda>i. map (\<lambda>j.
               if i = k \<or> j = k then - (rows A ! i ! j)
               else rows A ! i ! j
                    + sgn (rows A ! i ! k) * max 0 (rows A ! i ! k * (rows A ! k ! j)))
             [0..<length (rows A ! i)])
          [0..<length (rows A)]\<rparr>"

section \<open>Quivers and seeds\<close>

type_synonym mutation_type = string

text \<open>
  Modelled from the spec: the \<open>ClusterQuiver\<close> class is not among the sources.  The seed
  reads four of its attributes: the matrix, the two counts and the mutation type.
\<close>

record quiver =
  quiver_M :: matrix
  quiver_n :: nat
  quiver_m :: nat
  quiver_mutation_type :: "mutation_type option"

text \<open>
  Modelled from the spec: \<open>ClusterQuiver(M)\<close> for a matrix \<open>M\<close>.  The matrix has \<open>n\<close>
  columns and \<open>n + m\<close> rows; a quiver built from a bare matrix has no mutation type yet.
\<close>

definition ClusterQuiver_of_matrix :: "matrix \<Rightarrow> quiver" where
  "ClusterQuiver_of_matrix A =
     \<lparr>quiver_M = A, quiver_n = ncols A, quiver_m = nrows A - ncols A,
      quiver_mutation_type = None\<rparr>"

text \<open>
  The attributes of \<open>ClusterSeed\<close>.  The elements of the fraction field \<open>_R\<close> are the
  type parameter \<open>'a\<close>; \<open>_R\<close> itself is kept as the list of the names of its generators.
\<close>

record 'a seed =
  seed_M :: matrix
  seed_cluster :: "'a list"
  seed_n :: nat
  seed_m :: nat
  seed_R :: "string list"
  seed_quiver :: "quiver option"
  seed_mutation_type :: "mutation_type option"
  seed_description :: string
  seed_is_principal :: "bool option"

text \<open>
  The first branch of \<open>__init__\<close>: a seed from a seed.  Matrix and cluster are copied, the
  other attributes are taken over, and \<open>_is_principal\<close> is the constructor's argument.
\<close>

definition ClusterSeed_of_seed :: "'a seed \<Rightarrow> bool option \<Rightarrow> 'a seed" where
  "ClusterSeed_of_seed data is_principal =
     \<lparr>seed_M = seed_M data,
      seed_cluster = seed_cluster data,
      seed_n = seed_n data,
      seed_m = seed_m data,
      seed_R = seed_R data,
      seed_quiver = seed_quiver data,
      seed_mutation_type = seed_mutation_type data,
      seed_description = seed_description data,
      seed_is_principal = is_principal\<rparr>"

section \<open>Mutation\<close>

text \<open>The arguments of \<open>mutate\<close>, by the Python types the method tells apart.\<close>

datatype seq_arg =
    Vertex int \<comment> \<open>an integer\<close>
  | VertexList "int list" \<comment> \<open>a list of integers\<close>
  | VertexTuple "int list" \<comment> \<open>a tuple of integers\<close>
  | OtherArg \<comment> \<open>any other object: a string, a set, an iterator, \<open>None\<close>\<close>

datatype inplace_arg =
    InplaceBool bool
  | InplaceObject bool \<comment> \<open>an object that is not a \<open>bool\<close>, with its truth value\<close>

fun truthy :: "inplace_arg \<Rightarrow> bool" where
  "truthy (InplaceBool b) = b"
| "truthy (InplaceObject b) = b"

fun is_bool :: "inplace_arg \<Rightarrow> bool" where
  "is_bool (InplaceBool b) = True"
| "is_bool (InplaceObject b) = False"

text \<open>\<open>v in range(n)\<close>\<close>

definition in_range :: "nat \<Rightarrow> int \<Rightarrow> bool" where
  "in_range n v = (0 \<le> v \<and> v < int n)"

text \<open>
  The inner loop \<open>for j in range(n+m)\<close>: the two monomials of the exchange relation at
  column \<open>k\<close>.
\<close>

fun exchange_monomials ::
  "matrix \<Rightarrow> 'a list \<Rightarrow> nat \<Rightarrow> nat list \<Rightarrow> 'a \<times> 'a \<Rightarrow> error + ('a::power) \<times> 'a" where
  "exchange_monomials M cluster k [] (mon_p, mon_n) = Inr (mon_p, mon_n)"
| "exchange_monomials M cluster k (j # js) (mon_p, mon_n) =
     (case entry M j k of
        None \<Rightarrow> Inl IndexError
      | Some e \<Rightarrow>
          if e > 0 then
            (if j < length cluster
             then exchange_monomials M cluster k js (mon_p * cluster ! j ^ nat e, mon_n)
             else Inl IndexError)
          else if e < 0 then
            (if j < length cluster
             then exchange_monomials M cluster k js (mon_p, mon_n * cluster ! j ^ nat (- e))
             else Inl IndexError)
          else exchange_monomials M cluster k js (mon_p, mon_n))"

text \<open>
  One pass of the loop \<open>for k in seq\<close>.  Everything that can raise is evaluated before the
  assignment to \<open>cluster[k]\<close>: the reads of the matrix and of the cluster, and the inverse
  \<open>cluster[k]**(-1)\<close>, which raises \<open>ZeroDivisionError\<close> at zero.
\<close>

definition mutate_step :: "nat \<Rightarrow> 'a seed \<Rightarrow> error + ('a::{zero,plus,inverse,power}) seed" where
  "mutate_step k seed =
     (let M = seed_M seed; cluster = seed_cluster seed in
      case exchange_monomials M cluster k [0..<seed_n seed + seed_m seed] (1, 1) of
        Inl e \<Rightarrow> Inl e
      | Inr (mon_p, mon_n) \<Rightarrow>
          if \<not> k < length cluster then Inl IndexError
          else if cluster ! k = 0 then Inl ZeroDivisionError
          else Inr (seed\<lparr>seed_cluster := cluster[k := (mon_p + mon_n) * inverse (cluster ! k)],
                          seed_M := matrix_mutate k M\<rparr>))"

text \<open>
  The loop \<open>for k in seq\<close> on the seed it updates: the seed when the loop stops, and the
  exception that stopped it, if any.
\<close>

fun mutate_steps ::
  "int list \<Rightarrow> 'a seed \<Rightarrow> ('a::{zero,plus,inverse,power}) seed \<times> error option" where
  "mutate_steps [] seed = (seed, None)"
| "mutate_steps (k # seq) seed =
     (case mutate_step (nat k) seed of
        Inl e \<Rightarrow> (seed, Some e)
      | Inr seed' \<Rightarrow> mutate_steps seq seed')"

text \<open>
  The list \<open>seq\<close> after the first three statements on \<open>sequence\<close>, or \<open>None\<close> where
  \<open>type(seq) is list\<close> fails.
\<close>

fun seq_of :: "nat \<Rightarrow> seq_arg \<Rightarrow> int list option" where
  "seq_of n (Vertex v) = (if in_range n v then Some [v] else None)"
| "seq_of n (VertexList vs) = Some vs"
| "seq_of n (VertexTuple vs) = Some vs"
| "seq_of n OtherArg = None"

text \<open>
  \<open>mutate(self, sequence, inplace)\<close>.  The result is the state of \<open>self\<close> after the call,
  and either the exception raised or the value returned (\<open>None\<close> in place, the mutated
  copy otherwise).
\<close>

definition mutate ::
  "seq_arg \<Rightarrow> inplace_arg \<Rightarrow> 'a seed
     \<Rightarrow> ('a::{zero,plus,inverse,power}) seed \<times> (error + 'a seed option)" where
  "mutate sequence inplace self =
     (let seed = (if truthy inplace then self else ClusterSeed_of_seed self None);
          n = seed_n seed
      in case seq_of n sequence of
           None \<Rightarrow> (self, Inl InvalidArgument)
         | Some seq \<Rightarrow>
             if \<not> is_bool inplace then (self, Inl InplaceNotBoolean)
             else
               (case filter (\<lambda>v. \<not> in_range n v) seq of
                  v # _ \<Rightarrow> (self, Inl (InvalidVertex v))
                | [] \<Rightarrow>
                    (case mutate_steps seq seed of
                       (seed', Some e) \<Rightarrow> (if truthy inplace then seed' else self, Inl e)
                     | (seed', None) \<Rightarrow>
                         (let seed'' = seed'\<lparr>seed_quiver := None\<rparr>
                          in if truthy inplace then (seed'', Inr None)
                             else (self, Inr (Some seed''))))))"

section \<open>The field of rational functions\<close>

text \<open>
  Modelled from the spec: \<open>FractionField(PolynomialRing(QQ, names))\<close> is a capability of
  the surrounding library (exact arithmetic of rational functions over \<open>\<rat>\<close>).  For the
  scenarios that compute with it, a polynomial is the list of its terms, a term an
  exponent vector (indexed by the position of the generator, without trailing zeros) and
  a non-zero rational coefficient; the terms are kept sorted, so a polynomial has one
  representation.  A field element is a fraction of two polynomials.  Sage keeps the
  fraction reduced and compares two fractions by cross-multiplication; here the fraction
  is not reduced, and \<open>rf_equal\<close> is that comparison.
\<close>

type_synonym monomial = "nat list"

type_synonym polynomial = "(monomial \<times> rat) list"

fun monomial_less :: "monomial \<Rightarrow> monomial \<Rightarrow> bool" where
  "monomial_less [] [] = False"
| "monomial_less [] (y # ys) = True"
| "monomial_less (x # xs) [] = False"
| "monomial_less (x # xs) (y # ys) = (x < y \<or> (x = y \<and> monomial_less xs ys))"

fun monomial_mult :: "monomial \<Rightarrow> monomial \<Rightarrow> monomial" where
  "monomial_mult [] ys = ys"
| "monomial_mult (x # xs) [] = x # xs"
| "monomial_mult (x # xs) (y # ys) = (x + y) # monomial_mult xs ys"

text \<open>An exponent vector without its trailing zeros.\<close>

definition strip_zeros :: "monomial \<Rightarrow> monomial" where
  "strip_zeros u = rev (dropWhile (\<lambda>e. e = 0) (rev u))"

fun poly_insert :: "monomial \<times> rat \<Rightarrow> polynomial \<Rightarrow> polynomial" where
  "poly_insert (u, c) [] = (if c = 0 then [] else [(u, c)])"
| "poly_insert (u, c) ((v, d) # p) =
     (if u = v then (if c + d = 0 then p else (v, c + d) # p)
      else if monomial_less u v then (if c = 0 then (v, d) # p else (u, c) # (v, d) # p)
      else (v, d) # poly_insert (u, c) p)"

definition poly_add :: "polynomial \<Rightarrow> polynomial \<Rightarrow> polynomial" where
  "poly_add p q = foldr poly_insert p q"

definition poly_mult :: "polynomial \<Rightarrow> polynomial \<Rightarrow> polynomial" where
  "poly_mult p q =
     foldr (\<lambda>(u, c) acc. poly_add (map (\<lambda>(v, d). (monomial_mult u v, c * d)) q) acc) p []"

definition poly_one :: polynomial where
  "poly_one = [([], 1)]"

datatype ratfun = Frac (numerator: polynomial) (denominator: polynomial)

text \<open>Zero has the one representation \<open>0/1\<close>, so that \<open>f = 0\<close> is the test for zero.\<close>

definition mk_frac :: "polynomial \<Rightarrow> polynomial \<Rightarrow> ratfun" where
  "mk_frac p q = (if p = [] then Frac [] poly_one else Frac p q)"

instantiation ratfun :: "{zero,one,plus,times,inverse,power}"
begin

definition zero_ratfun :: ratfun where
  "zero_ratfun = Frac [] poly_one"

definition one_ratfun :: ratfun where
  "one_ratfun = Frac poly_one poly_one"

definition plus_ratfun :: "ratfun \<Rightarrow> ratfun \<Rightarrow> ratfun" where
  "plus_ratfun f g =
     mk_frac (poly_add (poly_mult (numerator f) (denominator g))
                       (poly_mult (numerator g) (denominator f)))
             (poly_mult (denominator f) (denominator g))"

definition times_ratfun :: "ratfun \<Rightarrow> ratfun \<Rightarrow> ratfun" where
  "times_ratfun f g =
     mk_frac (poly_mult (numerator f) (numerator g))
             (poly_mult (denominator f) (denominator g))"

definition inverse_ratfun :: "ratfun \<Rightarrow> ratfun" where
  "inverse_ratfun f = mk_frac (denominator f) (numerator f)"

definition divide_ratfun :: "ratfun \<Rightarrow> ratfun \<Rightarrow> ratfun" where
  "divide_ratfun f g = f * inverse g"

instance ..

end

text \<open>\<open>f == g\<close> on elements of the fraction field.\<close>

definition rf_equal :: "ratfun \<Rightarrow> ratfun \<Rightarrow> bool" where
  "rf_equal f g =
     (poly_mult (numerator f) (denominator g) = poly_mult (numerator g) (denominator f))"

text \<open>The generator at position \<open>i\<close> of the field, and the rational constant \<open>c\<close>.\<close>

definition gen :: "nat \<Rightarrow> ratfun" where
  "gen i = Frac [(replicate i 0 @ [1], 1)] poly_one"

definition const :: "rat \<Rightarrow> ratfun" where
  "const c = mk_frac (poly_insert ([], c) []) poly_one"

fun string_of_nat :: "nat \<Rightarrow> string" where
  "string_of_nat n =
     (if n < 10 then [char_of (48 + n)]
      else string_of_nat (n div 10) @ [char_of (48 + n mod 10)])"

declare string_of_nat.simps [simp del]

text \<open>
  \<open>['x%s'%i for i in range(0,n)] + ['y%s'%i for i in range(0,m)]\<close>: the names of the
  generators of the field of a seed with \<open>n\<close> exchangeable and \<open>m\<close> frozen variables.
\<close>

definition generator_names :: "nat \<Rightarrow> nat \<Rightarrow> string list" where
  "generator_names n m =
     map (\<lambda>i. ''x'' @ string_of_nat i) [0..<n] @ map (\<lambda>i. ''y'' @ string_of_nat i) [0..<m]"

text \<open>\<open>R.gens()\<close>\<close>

definition gens :: "string list \<Rightarrow> ratfun list" where
  "gens R = map gen [0..<length R]"

text \<open>
  \<open>c in R\<close>: numerator and denominator are polynomials in the generators of \<open>R\<close>, in
  the one representation a polynomial has, and the denominator is not zero.
\<close>

definition in_ring :: "string list \<Rightarrow> polynomial \<Rightarrow> bool" where
  "in_ring R p =
     (foldr poly_insert p [] = p \<and>
      list_all (\<lambda>(u, c). length u \<le> length R \<and> strip_zeros u = u) p)"

definition in_field :: "string list \<Rightarrow> ratfun \<Rightarrow> bool" where
  "in_field R f = (in_ring R (numerator f) \<and> in_ring R (denominator f) \<and> denominator f \<noteq> [])"

text \<open>\<open>R(c)\<close> for an element \<open>c\<close> of \<open>R\<close>.\<close>

definition coerce :: "ratfun \<Rightarrow> ratfun" where
  "coerce f = mk_frac (numerator f) (denominator f)"

text \<open>
  \<open>f.subs(eval_dict)\<close>: the dictionary maps generators (by position) to rational values;
  the substitution is made in numerator and denominator, and dividing by a denominator
  that has become zero raises \<open>ZeroDivisionError\<close>.
\<close>

definition subs_term :: "(nat \<rightharpoonup> rat) \<Rightarrow> monomial \<times> rat \<Rightarrow> monomial \<times> rat" where
  "subs_term eval_dict t =
     (strip_zeros (map (\<lambda>(i, e). if eval_dict i = None then e else 0) (enumerate 0 (fst t))),
      snd t * prod_list (map (\<lambda>(i, e). case eval_dict i of None \<Rightarrow> 1 | Some v \<Rightarrow> v ^ e)
                             (enumerate 0 (fst t))))"

definition poly_subs :: "(nat \<rightharpoonup> rat) \<Rightarrow> polynomial \<Rightarrow> polynomial" where
  "poly_subs eval_dict p = foldr (\<lambda>t acc. poly_insert (subs_term eval_dict t) acc) p []"

definition subs :: "(nat \<rightharpoonup> rat) \<Rightarrow> ratfun \<Rightarrow> error + ratfun" where
  "subs eval_dict f =
     (let q = poly_subs eval_dict (denominator f)
      in if q = [] then Inl ZeroDivisionError
         else Inr (mk_frac (poly_subs eval_dict (numerator f)) q))"

text \<open>
  \<open>p.degrees()\<close>: the degree of the polynomial in each of the \<open>r\<close> generators of its ring.
\<close>

definition degrees :: "nat \<Rightarrow> polynomial \<Rightarrow> nat list" where
  "degrees r p =
     map (\<lambda>i. foldr (\<lambda>(u, c) d. max (if i < length u then u ! i else 0) d) p 0) [0..<r]"

section \<open>Construction of seeds\<close>

text \<open>
  The second branch of \<open>__init__\<close>: a seed from a quiver.  The cluster is the list of the
  generators of the field.
\<close>

definition ClusterSeed_of_quiver :: "quiver \<Rightarrow> bool option \<Rightarrow> ratfun seed" where
  "ClusterSeed_of_quiver data is_principal =
     (let n = quiver_n data; m = quiver_m data; R = generator_names n m in
      \<lparr>seed_M = quiver_M data,
       seed_cluster = gens R,
       seed_n = n,
       seed_m = m,
       seed_R = R,
       seed_quiver = Some data,
       seed_mutation_type = quiver_mutation_type data,
       seed_description = ''A seed for a cluster algebra of rank '' @ string_of_nat n,
       seed_is_principal = is_principal\<rparr>)"

text \<open>
  The argument \<open>data\<close> of the constructor: a seed, a quiver, or a matrix, from which the
  third branch builds the quiver first.  (Digraphs, edge lists and mutation types take
  the third branch too; their quivers are built by the quiver library.)
\<close>

datatype seed_data = FromSeed "ratfun seed" | FromQuiver quiver | FromMatrix matrix

fun ClusterSeed :: "seed_data \<Rightarrow> bool option \<Rightarrow> ratfun seed" where
  "ClusterSeed (FromSeed data) is_principal = ClusterSeed_of_seed data is_principal"
| "ClusterSeed (FromQuiver data) is_principal = ClusterSeed_of_quiver data is_principal"
| "ClusterSeed (FromMatrix data) is_principal =
     ClusterSeed_of_quiver (ClusterQuiver_of_matrix data) is_principal"

section \<open>Cluster variables and derived quantities\<close>

datatype variable_type = ClusterVariableType | FrozenVariableType

text \<open>\<open>ClusterVariable\<close>: a field element that stores whether the variable is frozen.\<close>

record ClusterVariable =
  element :: ratfun
  variable_type :: "variable_type option"

definition x :: "int \<Rightarrow> ratfun seed \<Rightarrow> error + ClusterVariable" where
  "x k self =
     (if in_range (seed_n self) k
      then Inr \<lparr>element = gens (seed_R self) ! nat k,
                variable_type = Some ClusterVariableType\<rparr>
      else Inl (IndexOutOfRange k))"

definition y :: "int \<Rightarrow> ratfun seed \<Rightarrow> error + ClusterVariable" where
  "y k self =
     (if in_range (seed_m self) k
      then Inr \<lparr>element = gens (seed_R self) ! (seed_n self + nat k),
                variable_type = Some FrozenVariableType\<rparr>
      else Inl (IndexOutOfRange k))"

definition cluster_variable :: "int \<Rightarrow> ratfun seed \<Rightarrow> error + ClusterVariable" where
  "cluster_variable k self =
     (if \<not> in_range (seed_n self) k then Inl (IndexOutOfRange k)
      else if \<not> nat k < length (seed_cluster self) then Inl IndexError
      else Inr \<lparr>element = seed_cluster self ! nat k,
                variable_type = Some ClusterVariableType\<rparr>)"

text \<open>\<open>not (ignore_coefficients or self._is_principal)\<close>\<close>

definition no_principal_coefficients :: "bool \<Rightarrow> 'a seed \<Rightarrow> bool" where
  "no_principal_coefficients ignore_coefficients self =
     (\<not> (ignore_coefficients \<or> seed_is_principal self = Some True))"

definition f_polynomial :: "int \<Rightarrow> bool \<Rightarrow> ratfun seed \<Rightarrow> error + ratfun" where
  "f_polynomial k ignore_coefficients self =
     (if no_principal_coefficients ignore_coefficients self
      then Inl (PreconditionUnmet NoPrincipalCoefficients)
      else if seed_m self \<noteq> seed_n self then Inl (PreconditionUnmet RankMismatch)
      else if \<not> in_range (seed_n self) k then Inl (IndexOutOfRange k)
      else
        (let eval_dict = (\<lambda>i. if i < seed_n self then Some 1 else None) in
         case cluster_variable k self of
           Inl e \<Rightarrow> Inl e
         | Inr f \<Rightarrow> subs eval_dict (element f)))"

definition g_vector :: "int \<Rightarrow> bool \<Rightarrow> ratfun seed \<Rightarrow> error + int list" where
  "g_vector k ignore_coefficients self =
     (if no_principal_coefficients ignore_coefficients self
      then Inl (PreconditionUnmet NoPrincipalCoefficients)
      else if seed_m self \<noteq> seed_n self then Inl (PreconditionUnmet RankMismatch)
      else if \<not> in_range (seed_n self) k then Inl (IndexOutOfRange k)
      else
        (case cluster_variable k self of
           Inl e \<Rightarrow> Inl e
         | Inr f \<Rightarrow>
             (let eval_dict =
                    (\<lambda>i. if seed_n self \<le> i \<and> i < seed_n self + seed_m self then Some 0
                          else None)
              in case subs eval_dict (element f) of
                   Inl e \<Rightarrow> Inl e
                 | Inr f0 \<Rightarrow>
                     (let d1 = degrees (length (seed_R self)) (numerator f0);
                          d2 = degrees (length (seed_R self)) (denominator f0)
                      in if length (seed_R self) < seed_n self then Inl IndexError
                         else Inr (map (\<lambda>i. int (d1 ! i) - int (d2 ! i)) [0..<seed_n self])))))"

text \<open>The reads \<open>self._M[i,k]\<close> of \<open>c_vector\<close>, for \<open>i\<close> in the list given.\<close>

fun column_entries :: "matrix \<Rightarrow> nat \<Rightarrow> nat list \<Rightarrow> error + int list" where
  "column_entries M k [] = Inr []"
| "column_entries M k (i # is) =
     (case entry M i k of
        None \<Rightarrow> Inl IndexError
      | Some e \<Rightarrow>
          (case column_entries M k is of Inl err \<Rightarrow> Inl err | Inr es \<Rightarrow> Inr (e # es)))"

definition c_vector :: "int \<Rightarrow> bool \<Rightarrow> 'a seed \<Rightarrow> error + int list" where
  "c_vector k ignore_coefficients self =
     (if \<not> in_range (seed_n self) k then Inl (IndexOutOfRange k)
      else if no_principal_coefficients ignore_coefficients self
      then Inl (PreconditionUnmet NoPrincipalCoefficients)
      else column_entries (seed_M self) (nat k) [seed_n self..<seed_n self + seed_m self])"

section \<open>Seed transformations\<close>

definition principal_extension :: "bool \<Rightarrow> ratfun seed \<Rightarrow> error + ratfun seed" where
  "principal_extension ignore_coefficients self =
     (if \<not> ignore_coefficients \<and> seed_m self \<noteq> 0
      then Inl (PreconditionUnmet MatrixNotSquare)
      else
        (let M = stack (seed_M self) (identity_matrix (seed_n self));
             is_principal = (seed_m self = 0);
             seed = ClusterSeed (FromMatrix M) (Some is_principal)
         in Inr (seed\<lparr>seed_mutation_type := seed_mutation_type self\<rparr>)))"

text \<open>
  \<open>set_cluster\<close> updates \<open>self\<close> in place: the result is the state of \<open>self\<close> after the
  call and the exception raised, if any.
\<close>

definition set_cluster :: "ratfun list \<Rightarrow> ratfun seed \<Rightarrow> ratfun seed \<times> error option" where
  "set_cluster cluster self =
     (if \<not> length cluster = seed_n self + seed_m self then (self, Some LengthMismatch)
      else if list_ex (\<lambda>c. \<not> in_field (seed_R self) c) cluster then (self, Some NotInField)
      else (self\<lparr>seed_cluster := map coerce cluster, seed_is_principal := None\<rparr>, None))"

section \<open>Mutation sequences\<close>

datatype return_output = ReturnSeed | ReturnMatrix | ReturnVar | ReturnOther

datatype 'a sequence_output =
    Seeds "'a seed list" | Matrices "matrix list" | Variables "'a list"

text \<open>
  The loop of \<open>mutation_sequence\<close>, which mutates a fresh copy at every vertex \<open>v\<close> and
  collects the copies and the new variables \<open>seed._cluster[v]\<close>.
\<close>

fun mutation_sequence_loop ::
  "int list \<Rightarrow> 'a seed \<Rightarrow> error + ('a::{zero,plus,inverse,power}) seed list \<times> 'a list" where
  "mutation_sequence_loop [] seed = Inr ([], [])"
| "mutation_sequence_loop (v # sequence) seed =
     (case snd (mutate (Vertex v) (InplaceBool False) seed) of
        Inl e \<Rightarrow> Inl e
      | Inr None \<Rightarrow> Inl IndexError \<comment> \<open>not reached: a call that is not in place returns the copy\<close>
      | Inr (Some seed') \<Rightarrow>
          if \<not> nat v < length (seed_cluster seed') then Inl IndexError
          else
            (case mutation_sequence_loop sequence seed' of
               Inl e \<Rightarrow> Inl e
             | Inr (seed_sequence, new_clust_var) \<Rightarrow>
                 Inr (seed' # seed_sequence, seed_cluster seed' ! nat v # new_clust_var)))"

text \<open>
  \<open>mutation_sequence\<close> with \<open>show_sequence=False\<close>; it works on copies and leaves \<open>self\<close>
  as it is.
\<close>

definition mutation_sequence ::
  "int list \<Rightarrow> return_output \<Rightarrow> 'a seed
     \<Rightarrow> error + ('a::{zero,plus,inverse,power}) sequence_output" where
  "mutation_sequence sequence output self =
     (case mutation_sequence_loop sequence (ClusterSeed_of_seed self None) of
        Inl e \<Rightarrow> Inl e
      | Inr (seed_sequence, new_clust_var) \<Rightarrow>
          (case output of
             ReturnSeed \<Rightarrow> Inr (Seeds seed_sequence)
           | ReturnMatrix \<Rightarrow> Inr (Matrices (map seed_M seed_sequence))
           | ReturnVar \<Rightarrow> Inr (Variables new_clust_var)
           | ReturnOther \<Rightarrow> Inl InvalidMode))"

section \<open>Invariants and the seeds of the scenarios\<close>

text \<open>
  The shape every constructor establishes: the matrix has \<open>n\<close> columns and \<open>n + m\<close> rows,
  and the cluster has one variable for each row.
\<close>

definition well_formed :: "'a seed \<Rightarrow> bool" where
  "well_formed S =
     (ncols (seed_M S) = seed_n S \<and>
      nrows (seed_M S) = seed_n S + seed_m S \<and>
      list_all (\<lambda>r. length r = seed_n S) (rows (seed_M S)) \<and>
      length (seed_cluster S) = seed_n S + seed_m S)"

text \<open>
  The exchangeable block of the matrix is skew-symmetrizable by the positive integers
  \<open>d\<close>: \<open>d[i] * M[i,j] = - d[j] * M[j,i]\<close> for all \<open>i, j < n\<close>.  The quiver library
  guarantees it for the matrices it hands to a seed.
\<close>

definition skew_symmetrizable :: "nat list \<Rightarrow> 'a seed \<Rightarrow> bool" where
  "skew_symmetrizable d S =
     (length d = seed_n S \<and> list_all (\<lambda>c. 0 < c) d \<and>
      list_all (\<lambda>i. list_all (\<lambda>j.
          int (d ! i) * (rows (seed_M S) ! i ! j) = - (int (d ! j) * (rows (seed_M S) ! j ! i)))
        [0..<seed_n S]) [0..<seed_n S])"

text \<open>
  The quivers of type \<open>A\<close> of rank 2, 3 and 4, with the matrices that the doctests of
  \<open>mutation_sequence\<close>, \<open>reset_principal_coefficients\<close> and \<open>b_matrix\<close> print for them.
\<close>

definition quiver_A2 :: quiver where
  "quiver_A2 =
     \<lparr>quiver_M = \<lparr>ncols = 2, rows = [[0, 1], [- 1, 0]]\<rparr>,
      quiver_n = 2, quiver_m = 0, quiver_mutation_type = Some ''['A', 2]''\<rparr>"

definition quiver_A3 :: quiver where
  "quiver_A3 =
     \<lparr>quiver_M = \<lparr>ncols = 3, rows = [[0, 1, 0], [- 1, 0, - 1], [0, 1, 0]]\<rparr>,
      quiver_n = 3, quiver_m = 0, quiver_mutation_type = Some ''['A', 3]''\<rparr>"

definition quiver_A4 :: quiver where
  "quiver_A4 =
     \<lparr>quiver_M =
        \<lparr>ncols = 4, rows = [[0, 1, 0, 0], [- 1, 0, - 1, 0], [0, 1, 0, 1], [0, 0, - 1, 0]]\<rparr>,
      quiver_n = 4, quiver_m = 0, quiver_mutation_type = Some ''['A', 4]''\<rparr>"

text \<open>\<open>ClusterSeed(['A',2])\<close>, \<open>ClusterSeed(['A',3])\<close> and \<open>ClusterSeed(['A',4])\<close>\<close>

definition seed_A2 :: "ratfun seed" where
  "seed_A2 = ClusterSeed (FromQuiver quiver_A2) None"

definition seed_A3 :: "ratfun seed" where
  "seed_A3 = ClusterSeed (FromQuiver quiver_A3) None"

definition seed_A4 :: "ratfun seed" where
  "seed_A4 = ClusterSeed (FromQuiver quiver_A4) None"

text \<open>
  \<open>ClusterSeed(['A',3]).principal_extension()\<close>, and the copy that
  \<open>mutate([2,1,2], inplace=False)\<close> returns for it (the seed itself, should the call
  raise).
\<close>

definition seed_A3_principal :: "ratfun seed" where
  "seed_A3_principal =
     (case principal_extension False seed_A3 of Inl e \<Rightarrow> seed_A3 | Inr T \<Rightarrow> T)"

definition seed_A3_mutated_copy :: "ratfun seed" where
  "seed_A3_mutated_copy =
     (case snd (mutate (VertexList [2, 1, 2]) (InplaceBool False) seed_A3_principal) of
        Inr (Some T) \<Rightarrow> T
      | _ \<Rightarrow> seed_A3_principal)"

text \<open>The seeds that \<open>mutation_sequence([2,1])\<close> returns for the same seed.\<close>

definition seed_A3_sequence :: "ratfun seed list" where
  "seed_A3_sequence =
     (case mutation_sequence [2, 1] ReturnSeed seed_A3_principal of
        Inr (Seeds Ts) \<Rightarrow> Ts
      | _ \<Rightarrow> [])"

text \<open>
  The seed of type \<open>A\<close> of rank 2 after \<open>set_cluster([x0, -1])\<close>: its second variable is a
  constant of the field.
\<close>

definition seed_A2_degenerate :: "ratfun seed" where
  "seed_A2_degenerate = fst (set_cluster [gen 0, const (- 1)] seed_A2)"

text \<open>
  A seed of type \<open>A\<close> of rank 2 whose cluster consists of the constants 2 and 5, over the
  field of the rational numbers.
\<close>

definition seed_A2_constants :: "rat seed" where
  "seed_A2_constants =
     \<lparr>seed_M = quiver_M quiver_A2,
      seed_cluster = [2, 5],
      seed_n = 2,
      seed_m = 0,
      seed_R = generator_names 2 0,
      seed_quiver = None,
      seed_mutation_type = quiver_mutation_type quiver_A2,
      seed_description = ''A seed for a cluster algebra of rank 2'',
      seed_is_principal = None\<rparr>"

text \<open>The result of a query is the field element \<open>g\<close>.\<close>

definition returns :: "error + ratfun \<Rightarrow> ratfun \<Rightarrow> bool" where
  "returns r g = (case r of Inl e \<Rightarrow> False | Inr f \<Rightarrow> rf_equal f g)"

section \<open>Scenarios\<close>

text \<open>
  C7.  The seed of type \<open>A\<close> of rank 4 has the exchange matrix
  \<open>[[0,1,0,0],[-1,0,-1,0],[0,1,0,1],[0,0,-1,0]]\<close>; one mutation at vertex 0, in place,
  returns without an error and leaves the exchange matrix
  \<open>[[0,-1,0,0],[1,0,-1,0],[0,1,0,1],[0,0,-1,0]]\<close>.
\<close>

theorem C7_mutate_A4_at_vertex_0:
  "seed_M seed_A4 =
     \<lparr>ncols = 4, rows = [[0, 1, 0, 0], [- 1, 0, - 1, 0], [0, 1, 0, 1], [0, 0, - 1, 0]]\<rparr> \<and>
   snd (mutate (Vertex 0) (InplaceBool True) seed_A4) =
     Inr None \<and>
   seed_M (fst (mutate (Vertex 0) (InplaceBool True) seed_A4)) =
     \<lparr>ncols = 4, rows = [[0, - 1, 0, 0], [1, 0, - 1, 0], [0, 1, 0, 1], [0, 0, - 1, 0]]\<rparr>"
  by code_simp

text \<open>
  C4.  The principal extension of the seed of type \<open>A\<close> of rank 3 has the frozen
  generators \<open>y1\<close> and \<open>y2\<close> at positions 4 and 5 of its field.  After the in-place
  mutation at the sequence \<open>[2,1,2]\<close>, which returns without an error, \<open>f_polynomial(0)\<close>
  is \<open>1\<close>, \<open>f_polynomial(1)\<close> is \<open>y1*y2 + y2 + 1\<close> and \<open>f_polynomial(2)\<close> is \<open>y1 + 1\<close>.
\<close>

theorem C4_f_polynomials_A3:
  "(case principal_extension False seed_A3 of
      Inl e \<Rightarrow> False
    | Inr S \<Rightarrow>
        seed_is_principal S = Some True \<and>
        snd (mutate (VertexList [2, 1, 2]) (InplaceBool True) S) = Inr None \<and>
        (let T = fst (mutate (VertexList [2, 1, 2]) (InplaceBool True) S) in
           y 1 T = Inr \<lparr>element = gen 4, variable_type = Some FrozenVariableType\<rparr> \<and>
           y 2 T = Inr \<lparr>element = gen 5, variable_type = Some FrozenVariableType\<rparr> \<and>
           returns (f_polynomial 0 False T) 1 \<and>
           returns (f_polynomial 1 False T) (gen 4 * gen 5 + gen 5 + 1) \<and>
           returns (f_polynomial 2 False T) (gen 4 + 1)))"
  by code_simp

section \<open>The doctests of the source\<close>

text \<open>
  The examples in the docstrings of \<open>cluster_variable\<close>, \<open>set_cluster\<close>, \<open>mutate\<close>,
  \<open>mutation_sequence\<close>, \<open>reset_principal_coefficients\<close>, \<open>reset_cluster\<close>, \<open>g_vector\<close> and
  \<open>c_vector\<close>, evaluated on the model: the matrix mutation and the field arithmetic
  modelled from the specification give the matrices and the cluster variables that the
  source documents.  In the example of \<open>reset_cluster\<close> the principal extension is taken
  of a seed that has been mutated at \<open>[1,2,1]\<close>.
\<close>

lemma doctest_cluster_variable:
  "list_all2 rf_equal
     (seed_cluster (fst (mutate (VertexList [1, 2]) (InplaceBool True) seed_A3)))
     [gen 0,
      (gen 0 * gen 2 + 1) * inverse (gen 1),
      (gen 0 * gen 2 + gen 1 + 1) * inverse (gen 1 * gen 2)]"
  by code_simp

lemma doctest_set_cluster:
  "list_all2 rf_equal
     (seed_cluster (fst (mutate (VertexList [1, 2, 1]) (InplaceBool True) seed_A3)))
     [gen 0,
      (gen 1 + 1) * inverse (gen 2),
      (gen 0 * gen 2 + gen 1 + 1) * inverse (gen 1 * gen 2)]"
  by code_simp

lemma doctest_mutate:
  "seed_M (fst (mutate (VertexList [0, 1, 0]) (InplaceBool True) seed_A4)) =
     \<lparr>ncols = 4, rows = [[0, - 1, 1, 0], [1, 0, 0, 0], [- 1, 0, 0, 1], [0, 0, - 1, 0]]\<rparr>"
  by code_simp

lemma doctest_mutation_sequence:
  "mutation_sequence [0, 1, 0] ReturnMatrix seed_A2 =
     Inr (Matrices [\<lparr>ncols = 2, rows = [[0, - 1], [1, 0]]\<rparr>,
                    \<lparr>ncols = 2, rows = [[0, 1], [- 1, 0]]\<rparr>,
                    \<lparr>ncols = 2, rows = [[0, - 1], [1, 0]]\<rparr>])"
  by code_simp

lemma doctest_reset_principal_coefficients:
  "seed_M seed_A3_principal =
     \<lparr>ncols = 3,
      rows = [[0, 1, 0], [- 1, 0, - 1], [0, 1, 0], [1, 0, 0], [0, 1, 0], [0, 0, 1]]\<rparr> \<and>
   seed_M (fst (mutate (VertexList [1, 2, 1]) (InplaceBool True) seed_A3_principal)) =
     \<lparr>ncols = 3,
      rows = [[0, 1, - 1], [- 1, 0, 1], [1, - 1, 0], [1, 0, 0], [0, 1, - 1], [0, 0, - 1]]\<rparr>"
  by code_simp

lemma doctest_reset_cluster:
  "(case principal_extension False
           (fst (mutate (VertexList [1, 2, 1]) (InplaceBool True) seed_A3)) of
      Inl e \<Rightarrow> False
    | Inr T \<Rightarrow>
        take 3 (seed_cluster T) = [gen 0, gen 1, gen 2] \<and>
        list_all2 rf_equal
          (take 3 (seed_cluster (fst (mutate (VertexList [1, 2, 1]) (InplaceBool True) T))))
          [gen 0,
           (gen 1 * gen 5 + gen 0) * inverse (gen 2),
           (gen 1 * gen 4 * gen 5 + gen 0 * gen 4 + gen 2) * inverse (gen 1 * gen 2)])"
  by code_simp

lemma doctest_g_vector_c_vector:
  "map (\<lambda>k. g_vector k False (fst (mutate (VertexList [2, 1, 2]) (InplaceBool True)
                                      seed_A3_principal))) [0, 1, 2] =
     [Inr [1, 0, 0], Inr [0, 0, - 1], Inr [0, - 1, 0]] \<and>
   map (\<lambda>k. c_vector k False (fst (mutate (VertexList [2, 1, 2]) (InplaceBool True)
                                      seed_A3_principal))) [0, 1, 2] =
     [Inr [1, 0, 0], Inr [0, 0, - 1], Inr [0, - 1, 0]]"
  by code_simp

section \<open>Validation of the arguments of \<open>mutate\<close>\<close>

lemma seed_n_working_copy [simp]:
  "seed_n (if truthy inplace then S else ClusterSeed_of_seed S None) = seed_n S"
  by (simp add: ClusterSeed_of_seed_def)

lemma mutate_invalid_argument:
  "seq_of (seed_n S) sequence = None \<Longrightarrow> mutate sequence inplace S = (S, Inl InvalidArgument)"
  by (simp add: mutate_def Let_def)

lemma mutate_not_boolean:
  "seq_of (seed_n S) sequence = Some seq \<Longrightarrow> \<not> is_bool inplace \<Longrightarrow>
     mutate sequence inplace S = (S, Inl InplaceNotBoolean)"
  by (simp add: mutate_def Let_def)

lemma mutate_invalid_vertex:
  "seq_of (seed_n S) sequence = Some seq \<Longrightarrow> is_bool inplace \<Longrightarrow>
   filter (\<lambda>v. \<not> in_range (seed_n S) v) seq = v # vs \<Longrightarrow>
     mutate sequence inplace S = (S, Inl (InvalidVertex v))"
  by (simp add: mutate_def Let_def)

lemma mutate_validated:
  "seq_of (seed_n S) sequence = Some seq \<Longrightarrow> is_bool inplace \<Longrightarrow>
   filter (\<lambda>v. \<not> in_range (seed_n S) v) seq = [] \<Longrightarrow>
     mutate sequence inplace S =
       (case mutate_steps seq (if truthy inplace then S else ClusterSeed_of_seed S None) of
          (seed', Some e) \<Rightarrow> (if truthy inplace then seed' else S, Inl e)
        | (seed', None) \<Rightarrow>
            if truthy inplace then (seed'\<lparr>seed_quiver := None\<rparr>, Inr None)
            else (S, Inr (Some (seed'\<lparr>seed_quiver := None\<rparr>))))"
  by (simp add: mutate_def Let_def split: prod.splits option.splits)

lemma seed_A3_attributes:
  "seed_n seed_A3 = 3"
  "seed_m seed_A3 = 0"
  "seed_is_principal seed_A3 = None"
  by (simp_all add: seed_A3_def ClusterSeed_of_quiver_def quiver_A3_def Let_def)

text \<open>
  C2, as the claim states it, fails for a scalar: on the seed of type \<open>A\<close> of rank 3 the
  call \<open>mutate(5)\<close> raises the error of a malformed argument, not the error of an invalid
  vertex.
\<close>

theorem C2_scalar_out_of_range_counterexample:
  "\<not> in_range (seed_n seed_A3) 5 \<and>
   snd (mutate (Vertex 5) (InplaceBool True) seed_A3) =
     Inl InvalidArgument \<and>
   snd (mutate (Vertex 5) (InplaceBool True) seed_A3) \<noteq>
     Inl (InvalidVertex 5)"
  by code_simp

text \<open>
  C2, amended.  \<open>mutate\<close> fails with \<open>InvalidArgument\<close> whenever the sequence argument is
  neither a list, nor a tuple, nor a single index in \<open>[0,n)\<close>: in particular for a scalar
  index outside \<open>[0,n)\<close>, whatever \<open>inplace\<close> is.  With a boolean \<open>inplace\<close>, it fails with
  \<open>InvalidVertex\<close> whenever the argument is a list or a tuple with an index outside
  \<open>[0,n)\<close>, and the error names the first such index.
\<close>

theorem C2_mutate_validation_errors:
  "((sequence = OtherArg \<or> (\<exists>v. sequence = Vertex v \<and> \<not> in_range (seed_n S) v)) \<longrightarrow>
      snd (mutate sequence inplace S) = Inl InvalidArgument) \<and>
   (is_bool inplace \<and> (sequence = VertexList vs \<or> sequence = VertexTuple vs) \<and>
    \<not> list_all (in_range (seed_n S)) vs \<longrightarrow>
      snd (mutate sequence inplace S) =
        Inl (InvalidVertex (hd (filter (\<lambda>v. \<not> in_range (seed_n S) v) vs))))"
proof (intro conjI impI)
  assume "sequence = OtherArg \<or> (\<exists>v. sequence = Vertex v \<and> \<not> in_range (seed_n S) v)"
  then have "seq_of (seed_n S) sequence = None" by auto
  then show "snd (mutate sequence inplace S) = Inl InvalidArgument"
    by (simp add: mutate_invalid_argument)
next
  assume a: "is_bool inplace \<and> (sequence = VertexList vs \<or> sequence = VertexTuple vs) \<and>
    \<not> list_all (in_range (seed_n S)) vs"
  then have s: "seq_of (seed_n S) sequence = Some vs" by auto
  from a have "filter (\<lambda>v. \<not> in_range (seed_n S) v) vs \<noteq> []"
    by (simp add: filter_empty_conv list_all_iff)
  then obtain v rest where f: "filter (\<lambda>v. \<not> in_range (seed_n S) v) vs = v # rest"
    by (cases "filter (\<lambda>v. \<not> in_range (seed_n S) v) vs") auto
  from a s f show "snd (mutate sequence inplace S) =
        Inl (InvalidVertex (hd (filter (\<lambda>v. \<not> in_range (seed_n S) v) vs)))"
    by (simp add: mutate_invalid_vertex)
qed

theorem C2_mutate_validation_errors_witness:
  "\<not> in_range (seed_n seed_A3) (- 1) \<and>
   snd (mutate (Vertex (- 1)) (InplaceObject True) seed_A3) =
     Inl InvalidArgument \<and>
   is_bool (InplaceBool False) \<and>
   \<not> list_all (in_range (seed_n seed_A3)) [0, 7, 1, 9] \<and>
   snd (mutate (VertexTuple [0, 7, 1, 9]) (InplaceBool False)
          seed_A3) = Inl (InvalidVertex 7)"
  using
    C2_mutate_validation_errors [of "Vertex (- 1)" seed_A3
      "InplaceObject True" "[]"]
    C2_mutate_validation_errors [of "VertexTuple [0, 7, 1, 9]"
      seed_A3 "InplaceBool False" "[0, 7, 1, 9]"]
  by (simp add: seed_A3_attributes in_range_def)

section \<open>Preconditions of the derived quantities\<close>

text \<open>
  C5.  On a seed whose \<open>_is_principal\<close> is not \<open>True\<close> (it is \<open>None\<close> or \<open>False\<close>), the
  calls \<open>f_polynomial(k)\<close>, \<open>g_vector(k)\<close> and \<open>c_vector(k)\<close> for an index \<open>k\<close> in
  \<open>[0,n)\<close>, without \<open>ignore_coefficients\<close>, raise the error "No principal coefficients
  initialized".  The three methods assign to no attribute of the seed: they are functions
  of the seed, which has no state after the call but the one before it.
\<close>

theorem C5_no_principal_coefficients:
  assumes "seed_is_principal S \<noteq> Some True" and "in_range (seed_n S) k"
  shows "f_polynomial k False S = Inl (PreconditionUnmet NoPrincipalCoefficients) \<and>
         g_vector k False S = Inl (PreconditionUnmet NoPrincipalCoefficients) \<and>
         c_vector k False S = Inl (PreconditionUnmet NoPrincipalCoefficients)"
  using assms
  by (simp add: f_polynomial_def g_vector_def c_vector_def no_principal_coefficients_def)

theorem C5_no_principal_coefficients_witness:
  "seed_is_principal seed_A3 \<noteq> Some True \<and>
   in_range (seed_n seed_A3) 1 \<and>
   f_polynomial 1 False seed_A3 =
     Inl (PreconditionUnmet NoPrincipalCoefficients) \<and>
   g_vector 1 False seed_A3 =
     Inl (PreconditionUnmet NoPrincipalCoefficients) \<and>
   c_vector 1 False seed_A3 =
     Inl (PreconditionUnmet NoPrincipalCoefficients)"
  using C5_no_principal_coefficients [of seed_A3 1]
  by (simp add: seed_A3_attributes in_range_def)

section \<open>Copies of a seed\<close>

text \<open>A step of the loop of \<open>mutate\<close> changes the matrix and the cluster only.\<close>

lemma mutate_step_attributes:
  assumes "mutate_step k S = Inr S'"
  shows "seed_n S' = seed_n S \<and> seed_m S' = seed_m S \<and> seed_R S' = seed_R S \<and>
         seed_is_principal S' = seed_is_principal S \<and> seed_quiver S' = seed_quiver S \<and>
         seed_mutation_type S' = seed_mutation_type S \<and>
         seed_description S' = seed_description S"
  using assms by (auto simp: mutate_step_def Let_def split: sum.splits if_splits prod.splits)

lemma mutate_steps_attributes:
  "mutate_steps seq S = (S', r) \<Longrightarrow>
     seed_n S' = seed_n S \<and> seed_m S' = seed_m S \<and> seed_R S' = seed_R S \<and>
     seed_is_principal S' = seed_is_principal S \<and> seed_quiver S' = seed_quiver S \<and>
     seed_mutation_type S' = seed_mutation_type S \<and>
     seed_description S' = seed_description S"
proof (induction seq arbitrary: S)
  case Nil
  then show ?case by simp
next
  case (Cons k seq)
  show ?case
  proof (cases "mutate_step (nat k) S")
    case (Inl e)
    with Cons.prems show ?thesis by simp
  next
    case (Inr S1)
    with Cons.prems have "mutate_steps seq S1 = (S', r)" by simp
    from Cons.IH [OF this] mutate_step_attributes [OF Inr] show ?thesis by simp
  qed
qed

text \<open>What a call of \<open>mutate\<close> that returns a copy says about the copy.\<close>

lemma mutate_returns_copy:
  assumes "mutate sequence inplace S = (S', Inr (Some T))"
  shows "S' = S \<and> seed_is_principal T = None \<and> seed_n T = seed_n S \<and> seed_m T = seed_m S"
proof -
  from assms obtain seq where s: "seq_of (seed_n S) sequence = Some seq"
    by (cases "seq_of (seed_n S) sequence") (auto simp: mutate_invalid_argument)
  from assms s have b: "is_bool inplace"
    by (cases "is_bool inplace") (auto simp: mutate_not_boolean)
  from assms s b have f: "filter (\<lambda>v. \<not> in_range (seed_n S) v) seq = []"
    by (cases "filter (\<lambda>v. \<not> in_range (seed_n S) v) seq") (auto simp: mutate_invalid_vertex)
  obtain S1 r where m: "mutate_steps seq (if truthy inplace then S else ClusterSeed_of_seed S None) = (S1, r)"
    by (cases "mutate_steps seq (if truthy inplace then S else ClusterSeed_of_seed S None)") 
  from assms have "\<not> truthy inplace" and "r = None" and "S' = S" and "T = S1\<lparr>seed_quiver := None\<rparr>"
    unfolding mutate_validated [OF s b f] m by (auto split: option.splits if_splits)
  with m mutate_steps_attributes [OF m] show ?thesis
    by (simp add: ClusterSeed_of_seed_def)
qed

lemma mutation_sequence_loop_seeds:
  "mutation_sequence_loop sequence S = Inr (Ts, vs) \<Longrightarrow> T \<in> set Ts \<Longrightarrow>
     seed_is_principal T = None \<and> seed_n T = seed_n S \<and> seed_m T = seed_m S"
proof (induction sequence arbitrary: S Ts vs)
  case Nil
  then show ?case by simp
next
  case (Cons v sequence)
  obtain S0 r where m: "mutate (Vertex v) (InplaceBool False) S = (S0, r)"
    by (cases "mutate (Vertex v) (InplaceBool False) S")
  from Cons.prems(1) m obtain S1 where r: "r = Inr (Some S1)"
    by (cases r) (auto split: option.splits)
  from Cons.prems(1) m r obtain Ts' vs' where
    l: "mutation_sequence_loop sequence S1 = Inr (Ts', vs')" and t: "Ts = S1 # Ts'"
    by (auto split: if_splits sum.splits)
  from mutate_returns_copy [OF m [unfolded r]]
  have c: "seed_is_principal S1 = None \<and> seed_n S1 = seed_n S \<and> seed_m S1 = seed_m S" by simp
  from Cons.prems(2) t have "T = S1 \<or> T \<in> set Ts'" by auto
  then show ?case
  proof
    assume "T = S1"
    with c show ?thesis by simp
  next
    assume "T \<in> set Ts'"
    from Cons.IH [OF l this] c show ?thesis by simp
  qed
qed

lemma queries_fail_without_flag:
  assumes "seed_is_principal T = None"
  shows "f_polynomial k False T = Inl (PreconditionUnmet NoPrincipalCoefficients) \<and>
         g_vector k False T = Inl (PreconditionUnmet NoPrincipalCoefficients) \<and>
         (in_range (seed_n T) k \<longrightarrow>
            c_vector k False T = Inl (PreconditionUnmet NoPrincipalCoefficients))"
  using assms
  by (simp add: f_polynomial_def g_vector_def c_vector_def no_principal_coefficients_def)

text \<open>
  C9.  Let \<open>S\<close> be a seed whose \<open>_is_principal\<close> is \<open>True\<close>, and let \<open>T\<close> be a copy of it:
  the seed \<open>ClusterSeed(S)\<close>, the seed that \<open>S.mutate(sequence, inplace=False)\<close> returns,
  or one of the seeds that \<open>S.mutation_sequence(vs)\<close> returns.  Then \<open>_is_principal\<close> of
  \<open>T\<close> is \<open>None\<close>, and without \<open>ignore_coefficients\<close> the calls \<open>T.f_polynomial(k)\<close> and
  \<open>T.g_vector(k)\<close>, for every \<open>k\<close>, and \<open>T.c_vector(k)\<close>, for every index \<open>k\<close> of \<open>S\<close>,
  raise "No principal coefficients initialized".  (The witness shows calls that succeed
  on \<open>S\<close> and fail on the copy.)
\<close>

theorem C9_copies_lose_principal_flag:
  assumes "seed_is_principal S = Some True"
  shows
    "(T = ClusterSeed (FromSeed S) None \<or>
      mutate sequence (InplaceBool False) S = (S', Inr (Some T)) \<or>
      (\<exists>Ts. mutation_sequence vs ReturnSeed S = Inr (Seeds Ts) \<and> T \<in> set Ts)) \<longrightarrow>
     seed_is_principal T = None \<and>
     f_polynomial k False T = Inl (PreconditionUnmet NoPrincipalCoefficients) \<and>
     g_vector k False T = Inl (PreconditionUnmet NoPrincipalCoefficients) \<and>
     (in_range (seed_n S) k \<longrightarrow>
        c_vector k False T = Inl (PreconditionUnmet NoPrincipalCoefficients))"
proof
  assume "T = ClusterSeed (FromSeed S) None \<or>
      mutate sequence (InplaceBool False) S = (S', Inr (Some T)) \<or>
      (\<exists>Ts. mutation_sequence vs ReturnSeed S = Inr (Seeds Ts) \<and> T \<in> set Ts)"
  then have "seed_is_principal T = None \<and> seed_n T = seed_n S"
  proof (elim disjE exE conjE)
    assume "T = ClusterSeed (FromSeed S) None"
    then show ?thesis by (simp add: ClusterSeed_of_seed_def)
  next
    assume "mutate sequence (InplaceBool False) S = (S', Inr (Some T))"
    from mutate_returns_copy [OF this] show ?thesis by simp
  next
    fix Ts assume a: "mutation_sequence vs ReturnSeed S = Inr (Seeds Ts)" and t: "T \<in> set Ts"
    from a obtain ws where "mutation_sequence_loop vs (ClusterSeed_of_seed S None) = Inr (Ts, ws)"
      by (auto simp: mutation_sequence_def split: sum.splits)
    from mutation_sequence_loop_seeds [OF this t] show ?thesis
      by (simp add: ClusterSeed_of_seed_def)
  qed
  with queries_fail_without_flag [of T k] show "seed_is_principal T = None \<and>
     f_polynomial k False T = Inl (PreconditionUnmet NoPrincipalCoefficients) \<and>
     g_vector k False T = Inl (PreconditionUnmet NoPrincipalCoefficients) \<and>
     (in_range (seed_n S) k \<longrightarrow>
        c_vector k False T = Inl (PreconditionUnmet NoPrincipalCoefficients))"
    by simp
qed

theorem C9_copies_lose_principal_flag_witness:
  "seed_is_principal seed_A3_principal = Some True \<and>
   in_range (seed_n seed_A3_principal) 1 \<and>
   returns (f_polynomial 1 False seed_A3_principal) 1 \<and>
   g_vector 1 False seed_A3_principal = Inr [0, 1, 0] \<and>
   c_vector 1 False seed_A3_principal = Inr [0, 1, 0] \<and>
   mutate (VertexList [2, 1, 2]) (InplaceBool False) seed_A3_principal =
     (seed_A3_principal, Inr (Some seed_A3_mutated_copy)) \<and>
   seed_is_principal seed_A3_mutated_copy = None \<and>
   f_polynomial 1 False seed_A3_mutated_copy = Inl (PreconditionUnmet NoPrincipalCoefficients) \<and>
   g_vector 1 False seed_A3_mutated_copy = Inl (PreconditionUnmet NoPrincipalCoefficients) \<and>
   c_vector 1 False seed_A3_mutated_copy = Inl (PreconditionUnmet NoPrincipalCoefficients) \<and>
   f_polynomial 1 False (ClusterSeed (FromSeed seed_A3_principal) None) =
     Inl (PreconditionUnmet NoPrincipalCoefficients) \<and>
   mutation_sequence [2, 1] ReturnSeed seed_A3_principal = Inr (Seeds seed_A3_sequence) \<and>
   length seed_A3_sequence = 2 \<and>
   f_polynomial 1 False (last seed_A3_sequence) =
     Inl (PreconditionUnmet NoPrincipalCoefficients)"
proof -
  let ?S = seed_A3_principal
  have p: "seed_is_principal ?S = Some True" by code_simp
  have m: "mutate (VertexList [2, 1, 2]) (InplaceBool False) ?S =
     (?S, Inr (Some seed_A3_mutated_copy))" by code_simp
  have k: "in_range (seed_n ?S) 1" by code_simp
  have s: "returns (f_polynomial 1 False ?S) 1 \<and>
     g_vector 1 False ?S = Inr [0, 1, 0] \<and>
     c_vector 1 False ?S = Inr [0, 1, 0]" by code_simp
  have q: "mutation_sequence [2, 1] ReturnSeed ?S = Inr (Seeds seed_A3_sequence)"
    by code_simp
  have l: "length seed_A3_sequence = 2" by code_simp
  then have "seed_A3_sequence \<noteq> []" by auto
  then have "last seed_A3_sequence \<in> set seed_A3_sequence" by (rule last_in_set)
  with q have h: "\<exists>Ts. mutation_sequence [2, 1] ReturnSeed ?S = Inr (Seeds Ts) \<and>
      last seed_A3_sequence \<in> set Ts" by blast
  have 1: "seed_is_principal seed_A3_mutated_copy = None \<and>
     f_polynomial 1 False seed_A3_mutated_copy =
       Inl (PreconditionUnmet NoPrincipalCoefficients) \<and>
     g_vector 1 False seed_A3_mutated_copy = Inl (PreconditionUnmet NoPrincipalCoefficients) \<and>
     c_vector 1 False seed_A3_mutated_copy = Inl (PreconditionUnmet NoPrincipalCoefficients)"
    using C9_copies_lose_principal_flag [OF p, of seed_A3_mutated_copy "VertexList [2, 1, 2]"
      ?S "[]" 1] m k by blast
  have 2: "f_polynomial 1 False (ClusterSeed (FromSeed ?S) None) =
     Inl (PreconditionUnmet NoPrincipalCoefficients)"
    using C9_copies_lose_principal_flag [OF p, of "ClusterSeed (FromSeed ?S) None" OtherArg
      ?S "[]" 1] by blast
  have 3: "f_polynomial 1 False (last seed_A3_sequence) =
     Inl (PreconditionUnmet NoPrincipalCoefficients)"
    using C9_copies_lose_principal_flag [OF p, of "last seed_A3_sequence" OtherArg ?S
      "[2, 1]" 1] h by blast
  from p k s m 1 2 3 q l show ?thesis by blast
qed

section \<open>Errors of \<open>mutate\<close> and the state they leave\<close>

lemma entry_well_formed:
  "well_formed S \<Longrightarrow> j < seed_n S + seed_m S \<Longrightarrow> k < seed_n S \<Longrightarrow>
     entry (seed_M S) j k = Some (rows (seed_M S) ! j ! k)"
  by (simp add: well_formed_def entry_def nrows_def list_all_length)

lemma exchange_monomials_total:
  "(\<And>j. j \<in> set js \<Longrightarrow> entry M j k \<noteq> None \<and> j < length cluster) \<Longrightarrow>
     \<exists>r. exchange_monomials M cluster k js acc = Inr r"
proof (induction js arbitrary: acc)
  case Nil
  then show ?case by (cases acc) simp
next
  case (Cons j js)
  obtain p n where acc: "acc = (p, n)" by (cases acc)
  from Cons.prems [of j] obtain e where e: "entry M j k = Some e" and j: "j < length cluster"
    by auto
  have "\<And>a. \<exists>r. exchange_monomials M cluster k js a = Inr r"
    using Cons.IH Cons.prems by simp
  then show ?case unfolding acc using e j by simp
qed

lemma rows_matrix_mutate:
  "length (rows (matrix_mutate k A)) = length (rows A)"
  "i < length (rows A) \<Longrightarrow> length (rows (matrix_mutate k A) ! i) = length (rows A ! i)"
  "ncols (matrix_mutate k A) = ncols A"
  by (simp_all add: matrix_mutate_def)

lemma nth_matrix_mutate:
  "i < length (rows A) \<Longrightarrow> j < length (rows A ! i) \<Longrightarrow>
     rows (matrix_mutate k A) ! i ! j =
       (if i = k \<or> j = k then - (rows A ! i ! j)
        else rows A ! i ! j + sgn (rows A ! i ! k) * max 0 (rows A ! i ! k * (rows A ! k ! j)))"
  by (simp add: matrix_mutate_def)

lemma well_formed_step:
  assumes "well_formed S"
  shows "well_formed (S\<lparr>seed_cluster := (seed_cluster S)[k := v],
                         seed_M := matrix_mutate k (seed_M S)\<rparr>)"
  using assms
  by (simp add: well_formed_def nrows_def rows_matrix_mutate list_all_length)

lemma mutate_step_well_formed:
  assumes "well_formed S" and "k < seed_n S"
  shows "(mutate_step k S = Inl ZeroDivisionError \<and> seed_cluster S ! k = 0) \<or>
         (\<exists>S'. mutate_step k S = Inr S' \<and> well_formed S' \<and> seed_cluster S ! k \<noteq> 0)"
proof -
  have "\<And>j. j \<in> set [0..<seed_n S + seed_m S] \<Longrightarrow>
          entry (seed_M S) j k \<noteq> None \<and> j < length (seed_cluster S)"
    using assms by (simp add: entry_well_formed) (simp add: well_formed_def)
  from exchange_monomials_total [OF this]
  obtain r where r: "exchange_monomials (seed_M S) (seed_cluster S) k
      [0..<seed_n S + seed_m S] (1, 1) = Inr r"
    by blast
  obtain p n where pn: "r = (p, n)" by (cases r)
  from assms have k: "k < length (seed_cluster S)" by (simp add: well_formed_def)
  show ?thesis
  proof (cases "seed_cluster S ! k = 0")
    case True
    with r pn k show ?thesis by (simp add: mutate_step_def Let_def)
  next
    case False
    with r pn k well_formed_step [OF assms(1)] show ?thesis
      by (simp add: mutate_step_def Let_def)
  qed
qed

lemma mutate_steps_well_formed:
  "well_formed S \<Longrightarrow> list_all (in_range (seed_n S)) seq \<Longrightarrow> mutate_steps seq S = (S', r) \<Longrightarrow>
     well_formed S' \<and> (r = None \<or> r = Some ZeroDivisionError)"
proof (induction seq arbitrary: S)
  case Nil
  then show ?case by simp
next
  case (Cons k seq)
  from Cons.prems(2) have k: "nat k < seed_n S" by (simp add: in_range_def nat_less_iff)
  from mutate_step_well_formed [OF Cons.prems(1) k] show ?case
  proof (elim disjE exE conjE)
    assume "mutate_step (nat k) S = Inl ZeroDivisionError"
    with Cons.prems show ?thesis by simp
  next
    fix S1 assume s: "mutate_step (nat k) S = Inr S1" and w: "well_formed S1"
    from mutate_step_attributes [OF s] Cons.prems(2)
    have "list_all (in_range (seed_n S1)) seq" by simp
    moreover from s Cons.prems(3) have "mutate_steps seq S1 = (S', r)" by simp
    ultimately show ?thesis using Cons.IH [OF w] by simp
  qed
qed




section \<open>Principal extension\<close>

lemma length_generator_names [simp]: "length (generator_names n m) = n + m"
  by (simp add: generator_names_def)

text \<open>
  C6.  For a well-formed seed with \<open>n\<close> exchangeable and \<open>m = 0\<close> frozen variables,
  \<open>principal_extension\<close> (with or without \<open>ignore_coefficients\<close>) returns a seed whose
  matrix has \<open>n\<close> columns and \<open>n + n\<close> rows, the first \<open>n\<close> rows being the matrix of the
  seed and the last \<open>n\<close> rows the identity matrix, and whose \<open>_is_principal\<close> is \<open>True\<close>.
  For a seed with \<open>m \<noteq> 0\<close>, \<open>principal_extension\<close> without \<open>ignore_coefficients\<close> raises
  "The b-matrix is not square".
\<close>

theorem C6_principal_extension:
  "(well_formed S \<and> seed_m S = 0 \<longrightarrow>
      (\<exists>T. principal_extension ignore_coefficients S = Inr T \<and>
           ncols (seed_M T) = seed_n S \<and>
           nrows (seed_M T) = seed_n S + seed_n S \<and>
           take (seed_n S) (rows (seed_M T)) = rows (seed_M S) \<and>
           drop (seed_n S) (rows (seed_M T)) = rows (identity_matrix (seed_n S)) \<and>
           seed_n T = seed_n S \<and> seed_m T = seed_n S \<and>
           seed_is_principal T = Some True)) \<and>
   (seed_m S \<noteq> 0 \<longrightarrow>
      principal_extension False S = Inl (PreconditionUnmet MatrixNotSquare))"
  by (simp add: principal_extension_def well_formed_def Let_def ClusterSeed_of_quiver_def
      ClusterQuiver_of_matrix_def stack_def identity_matrix_def nrows_def)

theorem C6_principal_extension_witness:
  "well_formed seed_A3 \<and> seed_m seed_A3 = 0 \<and>
   principal_extension False seed_A3 = Inr seed_A3_principal \<and>
   seed_M seed_A3_principal =
     \<lparr>ncols = 3,
      rows = [[0, 1, 0], [- 1, 0, - 1], [0, 1, 0], [1, 0, 0], [0, 1, 0], [0, 0, 1]]\<rparr> \<and>
   seed_is_principal seed_A3_principal = Some True \<and>
   seed_m seed_A3_principal \<noteq> 0 \<and>
   principal_extension False seed_A3_principal = Inl (PreconditionUnmet MatrixNotSquare)"
proof -
  have a: "well_formed seed_A3 \<and> seed_m seed_A3 = 0 \<and>
     principal_extension False seed_A3 = Inr seed_A3_principal \<and>
     seed_M seed_A3_principal =
       \<lparr>ncols = 3,
        rows = [[0, 1, 0], [- 1, 0, - 1], [0, 1, 0], [1, 0, 0], [0, 1, 0], [0, 0, 1]]\<rparr> \<and>
     seed_m seed_A3_principal \<noteq> 0" by code_simp
  from C6_principal_extension [of seed_A3 False] C6_principal_extension [of seed_A3_principal] a
  show ?thesis by auto
qed

text \<open>
  C10.  Whenever \<open>principal_extension\<close> of a well-formed seed \<open>S\<close> returns a seed \<open>T\<close>, the
  field of \<open>T\<close> has the generators \<open>x0 ... x(n-1), y0 ... y(n+m-1)\<close>, the cluster of \<open>T\<close>
  is the list of these generators, one for each row of the matrix of \<open>T\<close>, and the first
  rows of that matrix are the current matrix of \<open>S\<close>.  The cluster of \<open>S\<close> plays no part:
  the result is the same for every cluster that \<open>S\<close> may hold.
\<close>

theorem C10_principal_extension_resets_cluster:
  assumes "well_formed S" and "principal_extension ignore_coefficients S = Inr T"
  shows "seed_R T = generator_names (seed_n S) (seed_n S + seed_m S) \<and>
         seed_cluster T = gens (seed_R T) \<and>
         length (seed_cluster T) = nrows (seed_M T) \<and>
         take (nrows (seed_M S)) (rows (seed_M T)) = rows (seed_M S) \<and>
         principal_extension ignore_coefficients (S\<lparr>seed_cluster := cluster\<rparr>) = Inr T"
  using assms
  by (auto simp: principal_extension_def well_formed_def Let_def ClusterSeed_of_quiver_def
      ClusterQuiver_of_matrix_def stack_def identity_matrix_def nrows_def gens_def
      split: if_splits)

theorem C10_principal_extension_resets_cluster_witness:
  "well_formed (fst (mutate (Vertex 1) (InplaceBool True) seed_A3)) \<and>
   seed_cluster (fst (mutate (Vertex 1) (InplaceBool True) seed_A3)) \<noteq> gens (seed_R seed_A3) \<and>
   seed_M (fst (mutate (Vertex 1) (InplaceBool True) seed_A3)) =
     \<lparr>ncols = 3, rows = [[0, - 1, 0], [1, 0, 1], [0, - 1, 0]]\<rparr> \<and>
   (\<exists>T. principal_extension False (fst (mutate (Vertex 1) (InplaceBool True) seed_A3)) = Inr T \<and>
        seed_cluster T = [gen 0, gen 1, gen 2, gen 3, gen 4, gen 5] \<and>
        seed_M T =
          \<lparr>ncols = 3,
           rows = [[0, - 1, 0], [1, 0, 1], [0, - 1, 0], [1, 0, 0], [0, 1, 0], [0, 0, 1]]\<rparr>)"
proof -
  let ?S = "fst (mutate (Vertex 1) (InplaceBool True) seed_A3)"
  let ?T = "case principal_extension False ?S of Inl e \<Rightarrow> seed_A3 | Inr T \<Rightarrow> T"
  have w: "well_formed ?S" by code_simp
  have p: "principal_extension False ?S = Inr ?T" by code_simp
  have c1: "seed_cluster ?S \<noteq> gens (seed_R seed_A3)" by code_simp
  have c2: "seed_M ?S = \<lparr>ncols = 3, rows = [[0, - 1, 0], [1, 0, 1], [0, - 1, 0]]\<rparr>"
    by code_simp
  have c3: "gens (seed_R ?T) = [gen 0, gen 1, gen 2, gen 3, gen 4, gen 5]" by code_simp
  have c4: "seed_M ?T =
     \<lparr>ncols = 3,
      rows = [[0, - 1, 0], [1, 0, 1], [0, - 1, 0], [1, 0, 0], [0, 1, 0], [0, 0, 1]]\<rparr>"
    by code_simp
  from C10_principal_extension_resets_cluster [OF w p]
  have "seed_cluster ?T = gens (seed_R ?T)" by blast
  then have c5: "seed_cluster ?T = [gen 0, gen 1, gen 2, gen 3, gen 4, gen 5]"
    by (simp only: c3)
  from p c5 c4 have "\<exists>T. principal_extension False ?S = Inr T \<and>
        seed_cluster T = [gen 0, gen 1, gen 2, gen 3, gen 4, gen 5] \<and>
        seed_M T =
          \<lparr>ncols = 3,
           rows = [[0, - 1, 0], [1, 0, 1], [0, - 1, 0], [1, 0, 0], [0, 1, 0], [0, 0, 1]]\<rparr>"
    by blast
  with w c1 c2 show ?thesis by blast
qed

section \<open>Mutations at independent vertices\<close>

lemma matrix_mutate_commute:
  assumes len: "list_all (\<lambda>r. length r = nc) (rows A)"
    and k: "k < nc" "k < length (rows A)" and l: "l < nc" "l < length (rows A)"
    and z: "rows A ! k ! l = 0" "rows A ! l ! k = 0"
  shows "matrix_mutate l (matrix_mutate k A) = matrix_mutate k (matrix_mutate l A)"
proof (rule matrix.equality)
  show "ncols (matrix_mutate l (matrix_mutate k A)) = ncols (matrix_mutate k (matrix_mutate l A))"
    by (simp add: rows_matrix_mutate)
  show "matrix.more (matrix_mutate l (matrix_mutate k A)) =
        matrix.more (matrix_mutate k (matrix_mutate l A))"
    by simp
  have row: "\<And>i. i < length (rows A) \<Longrightarrow> length (rows A ! i) = nc"
    using len by (simp add: list_all_length)
  show "rows (matrix_mutate l (matrix_mutate k A)) = rows (matrix_mutate k (matrix_mutate l A))"
  proof (rule nth_equalityI)
    show "length (rows (matrix_mutate l (matrix_mutate k A))) =
          length (rows (matrix_mutate k (matrix_mutate l A)))"
      by (simp add: rows_matrix_mutate)
  next
    fix i assume "i < length (rows (matrix_mutate l (matrix_mutate k A)))"
    then have i: "i < length (rows A)" by (simp add: rows_matrix_mutate)
    show "rows (matrix_mutate l (matrix_mutate k A)) ! i =
          rows (matrix_mutate k (matrix_mutate l A)) ! i"
    proof (rule nth_equalityI)
      show "length (rows (matrix_mutate l (matrix_mutate k A)) ! i) =
            length (rows (matrix_mutate k (matrix_mutate l A)) ! i)"
        using i by (simp add: rows_matrix_mutate)
    next
      fix j assume "j < length (rows (matrix_mutate l (matrix_mutate k A)) ! i)"
      then have j: "j < nc" using i by (simp add: rows_matrix_mutate row)
      show "rows (matrix_mutate l (matrix_mutate k A)) ! i ! j =
            rows (matrix_mutate k (matrix_mutate l A)) ! i ! j"
        using i j k l z
        by (simp add: nth_matrix_mutate rows_matrix_mutate row)
    qed
  qed
qed

text \<open>
  The inner loop reads column \<open>k\<close> of the matrix, and the cluster only where the column is
  not zero.
\<close>

lemma exchange_monomials_cong:
  assumes "\<And>j. j \<in> set js \<Longrightarrow> entry M' j k = entry M j k"
    and "length cluster' = length cluster"
    and "\<And>j. j \<in> set js \<Longrightarrow> entry M j k \<noteq> Some 0 \<Longrightarrow> cluster' ! j = cluster ! j"
  shows "exchange_monomials M' cluster' k js acc = exchange_monomials M cluster k js acc"
  using assms
proof (induction js arbitrary: acc)
  case Nil
  then show ?case by (cases acc) simp
next
  case (Cons j js)
  obtain p n where acc: "acc = (p, n)" by (cases acc)
  have e: "entry M' j k = entry M j k" using Cons.prems(1) by simp
  have IH: "\<And>a. exchange_monomials M' cluster' k js a = exchange_monomials M cluster k js a"
    using Cons.IH Cons.prems by simp
  show ?case
  proof (cases "entry M j k")
    case None
    with e acc show ?thesis by simp
  next
    case (Some a)
    show ?thesis
    proof (cases "a = 0")
      case True
      with Some e acc IH show ?thesis by simp
    next
      case False
      with Some Cons.prems(3) [of j] have "cluster' ! j = cluster ! j" by simp
      with Some e acc IH Cons.prems(2) show ?thesis by simp
    qed
  qed
qed

lemma entry_matrix_mutate:
  assumes "well_formed S" and "j < seed_n S + seed_m S" and "l < seed_n S"
  shows "entry (matrix_mutate k (seed_M S)) j l =
     Some (if j = k \<or> l = k then - (rows (seed_M S) ! j ! l)
           else rows (seed_M S) ! j ! l
                + sgn (rows (seed_M S) ! j ! k)
                  * max 0 (rows (seed_M S) ! j ! k * (rows (seed_M S) ! k ! l)))"
  using assms
  by (simp add: entry_def well_formed_def nrows_def list_all_length rows_matrix_mutate
      nth_matrix_mutate)

text \<open>The step at a well-formed seed, written out.\<close>

lemma mutate_step_eq:
  assumes "well_formed S" and "k < seed_n S"
  shows "\<exists>p n. exchange_monomials (seed_M S) (seed_cluster S) k
                  [0..<seed_n S + seed_m S] (1, 1) = Inr (p, n) \<and>
               mutate_step k S =
                 (if seed_cluster S ! k = 0 then Inl ZeroDivisionError
                  else Inr (S\<lparr>seed_cluster :=
                                 (seed_cluster S)[k := (p + n) * inverse (seed_cluster S ! k)],
                               seed_M := matrix_mutate k (seed_M S)\<rparr>))"
proof -
  have "\<And>j. j \<in> set [0..<seed_n S + seed_m S] \<Longrightarrow>
          entry (seed_M S) j k \<noteq> None \<and> j < length (seed_cluster S)"
    using assms by (simp add: entry_well_formed) (simp add: well_formed_def)
  from exchange_monomials_total [OF this]
  obtain r where r: "exchange_monomials (seed_M S) (seed_cluster S) k
      [0..<seed_n S + seed_m S] (1, 1) = Inr r"
    by blast
  obtain p n where pn: "r = (p, n)" by (cases r)
  from assms have k: "k < length (seed_cluster S)" by (simp add: well_formed_def)
  from r pn k show ?thesis by (simp add: mutate_step_def Let_def)
qed

lemma mutate_step_other_vertex:
  assumes wf: "well_formed S" and k: "k < seed_n S" and l: "l < seed_n S" and kl: "k \<noteq> l"
    and z: "rows (seed_M S) ! k ! l = 0"
    and sk: "mutate_step k S = Inr Sk"
  shows "exchange_monomials (seed_M Sk) (seed_cluster Sk) l [0..<seed_n S + seed_m S] acc =
         exchange_monomials (seed_M S) (seed_cluster S) l [0..<seed_n S + seed_m S] acc"
    and "seed_cluster Sk ! l = seed_cluster S ! l"
proof -
  from mutate_step_eq [OF wf k] sk obtain p n where
    Sk: "Sk = S\<lparr>seed_cluster := (seed_cluster S)[k := (p + n) * inverse (seed_cluster S ! k)],
                 seed_M := matrix_mutate k (seed_M S)\<rparr>"
    by (auto split: if_splits)
  show "seed_cluster Sk ! l = seed_cluster S ! l"
    using kl by (simp add: Sk)
  show "exchange_monomials (seed_M Sk) (seed_cluster Sk) l [0..<seed_n S + seed_m S] acc =
        exchange_monomials (seed_M S) (seed_cluster S) l [0..<seed_n S + seed_m S] acc"
  proof (rule exchange_monomials_cong)
    show "length (seed_cluster Sk) = length (seed_cluster S)" by (simp add: Sk)
  next
    fix j assume "j \<in> set [0..<seed_n S + seed_m S]"
    then have j: "j < seed_n S + seed_m S" by simp
    show "entry (seed_M Sk) j l = entry (seed_M S) j l"
      using kl z by (simp add: Sk entry_matrix_mutate [OF wf j l] entry_well_formed [OF wf j l])
  next
    fix j assume "j \<in> set [0..<seed_n S + seed_m S]"
    then have j: "j < seed_n S + seed_m S" by simp
    assume "entry (seed_M S) j l \<noteq> Some 0"
    with z have "j \<noteq> k" by (auto simp: entry_well_formed [OF wf j l])
    then show "seed_cluster Sk ! j = seed_cluster S ! j" by (simp add: Sk)
  qed
qed

lemma mutate_step_commute:
  assumes wf: "well_formed S" and k: "k < seed_n S" and l: "l < seed_n S" and kl: "k \<noteq> l"
    and z: "rows (seed_M S) ! k ! l = 0" "rows (seed_M S) ! l ! k = 0"
    and sk: "mutate_step k S = Inr Sk" and sl: "mutate_step l S = Inr Sl"
  shows "\<exists>T. mutate_step l Sk = Inr T \<and> mutate_step k Sl = Inr T"
proof -
  let ?js = "[0..<seed_n S + seed_m S]"
  from mutate_step_eq [OF wf k] sk obtain pk nk where
    ek: "exchange_monomials (seed_M S) (seed_cluster S) k ?js (1, 1) = Inr (pk, nk)" and
    ck: "seed_cluster S ! k \<noteq> 0" and
    Sk: "Sk = S\<lparr>seed_cluster := (seed_cluster S)[k := (pk + nk) * inverse (seed_cluster S ! k)],
                 seed_M := matrix_mutate k (seed_M S)\<rparr>"
    by (auto split: if_splits)
  from mutate_step_eq [OF wf l] sl obtain pl nl where
    el: "exchange_monomials (seed_M S) (seed_cluster S) l ?js (1, 1) = Inr (pl, nl)" and
    cl: "seed_cluster S ! l \<noteq> 0" and
    Sl: "Sl = S\<lparr>seed_cluster := (seed_cluster S)[l := (pl + nl) * inverse (seed_cluster S ! l)],
                 seed_M := matrix_mutate l (seed_M S)\<rparr>"
    by (auto split: if_splits)
  have wk: "well_formed Sk" and wl: "well_formed Sl"
    using mutate_step_well_formed [OF wf k] mutate_step_well_formed [OF wf l] sk sl by auto
  have nk: "seed_n Sk = seed_n S" "seed_m Sk = seed_m S"
    and nl: "seed_n Sl = seed_n S" "seed_m Sl = seed_m S"
    by (simp_all add: Sk Sl)
  from mutate_step_eq [OF wk, of l] l nk
    mutate_step_other_vertex [OF wf k l kl z(1) sk] el cl
  have 1: "mutate_step l Sk =
      Inr (Sk\<lparr>seed_cluster := (seed_cluster Sk)[l := (pl + nl) * inverse (seed_cluster S ! l)],
              seed_M := matrix_mutate l (seed_M Sk)\<rparr>)"
    by auto
  from kl have lk: "l \<noteq> k" by simp
  from mutate_step_eq [OF wl, of k] k nl
    mutate_step_other_vertex [OF wf l k lk z(2) sl] ek ck
  have 2: "mutate_step k Sl =
      Inr (Sl\<lparr>seed_cluster := (seed_cluster Sl)[k := (pk + nk) * inverse (seed_cluster S ! k)],
              seed_M := matrix_mutate k (seed_M Sl)\<rparr>)"
    by auto
  from wf k l have len: "list_all (\<lambda>r. length r = seed_n S) (rows (seed_M S))"
    and kr: "k < length (rows (seed_M S))" and lr: "l < length (rows (seed_M S))"
    by (simp_all add: well_formed_def nrows_def)
  have "matrix_mutate l (matrix_mutate k (seed_M S)) = matrix_mutate k (matrix_mutate l (seed_M S))"
    by (rule matrix_mutate_commute [OF len k kr l lr z])
  with 1 2 kl show ?thesis
    by (simp add: Sk Sl list_update_swap)
qed

lemma mutate_vertex_inplace:
  assumes "in_range (seed_n S) k"
  shows "mutate (Vertex k) (InplaceBool True) S =
     (case mutate_step (nat k) S of
        Inl e \<Rightarrow> (S, Inl e)
      | Inr S' \<Rightarrow> (S'\<lparr>seed_quiver := None\<rparr>, Inr None))"
proof -
  have s: "seq_of (seed_n S) (Vertex k) = Some [k]" using assms by simp
  have f: "filter (\<lambda>v. \<not> in_range (seed_n S) v) [k] = []" using assms by simp
  show ?thesis
    unfolding mutate_validated [OF s _ f, of "InplaceBool True", simplified]
    by (simp split: sum.splits)
qed

lemma mutate_step_quiver:
  "mutate_step k (S\<lparr>seed_quiver := q\<rparr>) =
     (case mutate_step k S of Inl e \<Rightarrow> Inl e | Inr T \<Rightarrow> Inr (T\<lparr>seed_quiver := q\<rparr>))"
  by (simp add: mutate_step_def Let_def split: sum.splits prod.splits)

lemma well_formed_quiver [simp]: "well_formed (S\<lparr>seed_quiver := q\<rparr>) = well_formed S"
  by (simp add: well_formed_def)

lemma mutate_step_fails_iff:
  assumes "well_formed S" and "k < seed_n S"
  shows "(\<exists>e. mutate_step k S = Inl e) \<longleftrightarrow> seed_cluster S ! k = 0"
  using mutate_step_well_formed [OF assms] by auto

lemma two_calls_commute:
  fixes S :: "'a::{zero,plus,inverse,power} seed"
  assumes wf: "well_formed S" and k: "k < seed_n S" and l: "l < seed_n S"
    and z: "rows (seed_M S) ! k ! l = 0" "rows (seed_M S) ! l ! k = 0"
  shows "(case mutate_step l (case mutate_step k S of Inl e \<Rightarrow> S | Inr S' \<Rightarrow> S'\<lparr>seed_quiver := None\<rparr>) of
            Inl e \<Rightarrow> (case mutate_step k S of Inl e \<Rightarrow> S | Inr S' \<Rightarrow> S'\<lparr>seed_quiver := None\<rparr>)
          | Inr T \<Rightarrow> T\<lparr>seed_quiver := None\<rparr>) =
         (case mutate_step k (case mutate_step l S of Inl e \<Rightarrow> S | Inr S' \<Rightarrow> S'\<lparr>seed_quiver := None\<rparr>) of
            Inl e \<Rightarrow> (case mutate_step l S of Inl e \<Rightarrow> S | Inr S' \<Rightarrow> S'\<lparr>seed_quiver := None\<rparr>)
          | Inr T \<Rightarrow> T\<lparr>seed_quiver := None\<rparr>)"
proof (cases "k = l")
  case True
  show ?thesis unfolding True by (rule refl)
next
  case kl: False
  then have lk: "l \<noteq> k" by simp
  show ?thesis
  proof (cases "mutate_step k S")
    case ek: (Inl e1)
    show ?thesis
    proof (cases "mutate_step l S")
      case (Inl e2)
      with ek show ?thesis by simp
    next
      case sl: (Inr Sl)
      from mutate_step_fails_iff [OF wf k] ek have "seed_cluster S ! k = 0" by auto
      with mutate_step_other_vertex(2) [OF wf l k lk z(2) sl]
      have c: "seed_cluster Sl ! k = 0" by simp
      from mutate_step_well_formed [OF wf l] sl have wl: "well_formed Sl" by auto
      from mutate_step_attributes [OF sl] k have "k < seed_n Sl" by simp
      from mutate_step_fails_iff [OF wl this] c obtain e where "mutate_step k Sl = Inl e" by auto
      with ek sl show ?thesis by (simp add: mutate_step_quiver)
    qed
  next
    case sk: (Inr Sk)
    from mutate_step_well_formed [OF wf k] sk have wk: "well_formed Sk" by auto
    from mutate_step_attributes [OF sk] l have lSk: "l < seed_n Sk" by simp
    show ?thesis
    proof (cases "mutate_step l S")
      case el: (Inl e2)
      from mutate_step_fails_iff [OF wf l] el have "seed_cluster S ! l = 0" by auto
      with mutate_step_other_vertex(2) [OF wf k l kl z(1) sk]
      have c: "seed_cluster Sk ! l = 0" by simp
      from mutate_step_fails_iff [OF wk lSk] c obtain e where "mutate_step l Sk = Inl e" by auto
      with el sk show ?thesis by (simp add: mutate_step_quiver)
    next
      case sl: (Inr Sl)
      from mutate_step_commute [OF wf k l kl z sk sl]
      obtain T where "mutate_step l Sk = Inr T" and "mutate_step k Sl = Inr T" by blast
      with sk sl show ?thesis by (simp add: mutate_step_quiver)
    qed
  qed
qed

lemma mutate_steps_pair_commute:
  fixes S :: "'a::{zero,plus,inverse,power} seed"
  assumes wf: "well_formed S" and k: "in_range (seed_n S) k" and l: "in_range (seed_n S) l"
    and z: "rows (seed_M S) ! nat k ! nat l = 0" "rows (seed_M S) ! nat l ! nat k = 0"
    and m: "mutate_steps [k, l] S = (T, None)"
  shows "mutate_steps [l, k] S = (T, None)"
proof (cases "nat k = nat l")
  case True
  with k l have "k = l" by (simp add: in_range_def nat_eq_iff)
  with m show ?thesis by simp
next
  case kl: False
  from k l have kn: "nat k < seed_n S" and ln: "nat l < seed_n S"
    by (simp_all add: in_range_def nat_less_iff)
  from m obtain Sk where sk: "mutate_step (nat k) S = Inr Sk" and t: "mutate_step (nat l) Sk = Inr T"
    by (auto split: sum.splits)
  from mutate_step_well_formed [OF wf kn] sk have wk: "well_formed Sk" by auto
  from mutate_step_attributes [OF sk] ln have lSk: "nat l < seed_n Sk" by simp
  from mutate_step_fails_iff [OF wk lSk] t have "seed_cluster Sk ! nat l \<noteq> 0" by auto
  with mutate_step_other_vertex(2) [OF wf kn ln kl z(1) sk]
  have "seed_cluster S ! nat l \<noteq> 0" by simp
  with mutate_step_well_formed [OF wf ln] obtain Sl where sl: "mutate_step (nat l) S = Inr Sl"
    by auto
  from mutate_step_commute [OF wf kn ln kl z sk sl] t
  have "mutate_step (nat k) Sl = Inr T" by auto
  with sl show ?thesis by simp
qed


text \<open>
  C8.  Let \<open>k\<close> and \<open>l\<close> be exchangeable vertices of a well-formed seed with
  \<open>M[k,l] = M[l,k] = 0\<close>.  Mutating in place at \<open>k\<close> and then at \<open>l\<close> leaves the same seed
  (the same matrix, the same cluster and the same other attributes) as mutating at \<open>l\<close>
  and then at \<open>k\<close>; and whenever \<open>mutate([k,l])\<close> returns, in place or not,
  \<open>mutate([l,k])\<close> returns the same and leaves the same seed.
\<close>

theorem C8_independent_mutations_commute:
  fixes S :: "'a::{zero,plus,inverse,power} seed"
  assumes wf: "well_formed S" and k: "in_range (seed_n S) k" and l: "in_range (seed_n S) l"
    and z: "rows (seed_M S) ! nat k ! nat l = 0" "rows (seed_M S) ! nat l ! nat k = 0"
  shows
    "fst (mutate (Vertex l) (InplaceBool True) (fst (mutate (Vertex k) (InplaceBool True) S))) =
     fst (mutate (Vertex k) (InplaceBool True) (fst (mutate (Vertex l) (InplaceBool True) S))) \<and>
     (snd (mutate (VertexList [k, l]) inplace S) = Inr r \<longrightarrow>
        mutate (VertexList [l, k]) inplace S = mutate (VertexList [k, l]) inplace S)"
proof
  from k l have kn: "nat k < seed_n S" and ln: "nat l < seed_n S"
    by (simp_all add: in_range_def nat_less_iff)
  have a: "\<And>v S'. in_range (seed_n S) v \<Longrightarrow> seed_n S' = seed_n S \<Longrightarrow>
      fst (mutate (Vertex v) (InplaceBool True) S') =
        (case mutate_step (nat v) S' of Inl e \<Rightarrow> S' | Inr T \<Rightarrow> T\<lparr>seed_quiver := None\<rparr>)"
    by (simp add: mutate_vertex_inplace split: sum.splits)
  have n: "\<And>v. seed_n (case mutate_step (nat v) S of Inl e \<Rightarrow> S | Inr T \<Rightarrow> T\<lparr>seed_quiver := None\<rparr>)
      = seed_n S"
    by (auto split: sum.splits dest: mutate_step_attributes)
  show "fst (mutate (Vertex l) (InplaceBool True) (fst (mutate (Vertex k) (InplaceBool True) S))) =
     fst (mutate (Vertex k) (InplaceBool True) (fst (mutate (Vertex l) (InplaceBool True) S)))"
    using two_calls_commute [OF wf kn ln z]
    by (simp add: a k l n split: sum.splits)
next
  show "snd (mutate (VertexList [k, l]) inplace S) = Inr r \<longrightarrow>
        mutate (VertexList [l, k]) inplace S = mutate (VertexList [k, l]) inplace S"
  proof
    assume r: "snd (mutate (VertexList [k, l]) inplace S) = Inr r"
    let ?seed = "if truthy inplace then S else ClusterSeed_of_seed S None"
    have s1: "seq_of (seed_n S) (VertexList [k, l]) = Some [k, l]"
      and s2: "seq_of (seed_n S) (VertexList [l, k]) = Some [l, k]" by simp_all
    from r s1 have b: "is_bool inplace"
      by (cases "is_bool inplace") (auto simp: mutate_not_boolean)
    have f1: "filter (\<lambda>v. \<not> in_range (seed_n S) v) [k, l] = []"
      and f2: "filter (\<lambda>v. \<not> in_range (seed_n S) v) [l, k] = []"
      using k l by simp_all
    obtain T e where m: "mutate_steps [k, l] ?seed = (T, e)"
      by (cases "mutate_steps [k, l] ?seed")
    from r have e: "e = None"
      unfolding mutate_validated [OF s1 b f1] m by (auto split: option.splits if_splits)
    have w: "well_formed ?seed" using wf by (simp add: well_formed_def ClusterSeed_of_seed_def)
    have "mutate_steps [l, k] ?seed = (T, None)"
      by (rule mutate_steps_pair_commute [OF w _ _ _ _ m [unfolded e]])
         (use k l z in \<open>simp_all add: ClusterSeed_of_seed_def\<close>)
    then show "mutate (VertexList [l, k]) inplace S = mutate (VertexList [k, l]) inplace S"
      unfolding mutate_validated [OF s1 b f1] mutate_validated [OF s2 b f2] m e by simp
  qed
qed

theorem C8_independent_mutations_commute_witness:
  "well_formed seed_A3 \<and> in_range (seed_n seed_A3) 0 \<and> in_range (seed_n seed_A3) 2 \<and>
   rows (seed_M seed_A3) ! nat 0 ! nat 2 = 0 \<and> rows (seed_M seed_A3) ! nat 2 ! nat 0 = 0 \<and>
   fst (mutate (Vertex 2) (InplaceBool True) (fst (mutate (Vertex 0) (InplaceBool True) seed_A3))) =
   fst (mutate (Vertex 0) (InplaceBool True) (fst (mutate (Vertex 2) (InplaceBool True) seed_A3))) \<and>
   snd (mutate (VertexList [0, 2]) (InplaceBool True) seed_A3) = Inr None \<and>
   mutate (VertexList [2, 0]) (InplaceBool True) seed_A3 =
   mutate (VertexList [0, 2]) (InplaceBool True) seed_A3 \<and>
   seed_M (fst (mutate (VertexList [0, 2]) (InplaceBool True) seed_A3)) =
     \<lparr>ncols = 3, rows = [[0, - 1, 0], [1, 0, 1], [0, - 1, 0]]\<rparr>"
proof -
  have w: "well_formed seed_A3" by code_simp
  have k: "in_range (seed_n seed_A3) 0" and l: "in_range (seed_n seed_A3) 2" by code_simp+
  have z: "rows (seed_M seed_A3) ! nat 0 ! nat 2 = 0" "rows (seed_M seed_A3) ! nat 2 ! nat 0 = 0"
    by code_simp+
  have r: "snd (mutate (VertexList [0, 2]) (InplaceBool True) seed_A3) = Inr None \<and>
     seed_M (fst (mutate (VertexList [0, 2]) (InplaceBool True) seed_A3)) =
       \<lparr>ncols = 3, rows = [[0, - 1, 0], [1, 0, 1], [0, - 1, 0]]\<rparr>" by code_simp
  from C8_independent_mutations_commute [OF w k l z, of "InplaceBool True" None] w k l z r
  show ?thesis by simp
qed

section \<open>Mutating twice at a vertex\<close>

lemma matrix_mutate_involution:
  assumes len: "list_all (\<lambda>r. length r = nc) (rows A)"
    and k: "k < nc" "k < length (rows A)"
  shows "matrix_mutate k (matrix_mutate k A) = A"
proof (rule matrix.equality)
  show "ncols (matrix_mutate k (matrix_mutate k A)) = ncols A"
    by (simp add: rows_matrix_mutate)
  show "matrix.more (matrix_mutate k (matrix_mutate k A)) = matrix.more A"
    by simp
  have row: "\<And>i. i < length (rows A) \<Longrightarrow> length (rows A ! i) = nc"
    using len by (simp add: list_all_length)
  show "rows (matrix_mutate k (matrix_mutate k A)) = rows A"
  proof (rule nth_equalityI)
    show "length (rows (matrix_mutate k (matrix_mutate k A))) = length (rows A)"
      by (simp add: rows_matrix_mutate)
  next
    fix i assume "i < length (rows (matrix_mutate k (matrix_mutate k A)))"
    then have i: "i < length (rows A)" by (simp add: rows_matrix_mutate)
    show "rows (matrix_mutate k (matrix_mutate k A)) ! i = rows A ! i"
    proof (rule nth_equalityI)
      show "length (rows (matrix_mutate k (matrix_mutate k A)) ! i) = length (rows A ! i)"
        using i by (simp add: rows_matrix_mutate)
    next
      fix j assume "j < length (rows (matrix_mutate k (matrix_mutate k A)) ! i)"
      then have j: "j < nc" using i by (simp add: rows_matrix_mutate row)
      show "rows (matrix_mutate k (matrix_mutate k A)) ! i ! j = rows A ! i ! j"
        using i j k
        by (simp add: nth_matrix_mutate rows_matrix_mutate row sgn_minus)
    qed
  qed
qed

lemma exchange_monomials_negated:
  assumes "\<And>j. j \<in> set js \<Longrightarrow> entry M' j k = map_option uminus (entry M j k)"
    and "length cluster' = length cluster"
    and "\<And>j. j \<in> set js \<Longrightarrow> entry M j k \<noteq> Some 0 \<Longrightarrow> cluster' ! j = cluster ! j"
  shows "exchange_monomials M' cluster' k js (n, p) =
     (case exchange_monomials M cluster k js (p, n) of
        Inl e \<Rightarrow> Inl e
      | Inr (p', n') \<Rightarrow> Inr (n', p'))"
  using assms
proof (induction js arbitrary: p n)
  case Nil
  then show ?case by simp
next
  case (Cons j js)
  have e: "entry M' j k = map_option uminus (entry M j k)" using Cons.prems(1) by simp
  have IH: "\<And>p n. exchange_monomials M' cluster' k js (n, p) =
     (case exchange_monomials M cluster k js (p, n) of
        Inl e \<Rightarrow> Inl e
      | Inr (p', n') \<Rightarrow> Inr (n', p'))"
    using Cons.IH Cons.prems by simp
  show ?case
  proof (cases "entry M j k")
    case None
    with e show ?thesis by simp
  next
    case (Some a)
    show ?thesis
    proof (cases "a = 0")
      case True
      with Some e IH show ?thesis by simp
    next
      case False
      with Some Cons.prems(3) [of j] have "cluster' ! j = cluster ! j" by simp
      with Some e IH Cons.prems(2) False show ?thesis by simp
    qed
  qed
qed

lemma mutate_step_twice:
  fixes S :: "'a::field seed"
  assumes wf: "well_formed S" and k: "k < seed_n S"
    and d: "rows (seed_M S) ! k ! k = 0"
    and s1: "mutate_step k S = Inr S1" and s2: "mutate_step k S1 = Inr S2"
  shows "S2 = S"
proof -
  let ?js = "[0..<seed_n S + seed_m S]"
  let ?c = "seed_cluster S"
  from mutate_step_eq [OF wf k] s1 obtain p n where
    e1: "exchange_monomials (seed_M S) ?c k ?js (1, 1) = Inr (p, n)" and
    c1: "?c ! k \<noteq> 0" and
    S1: "S1 = S\<lparr>seed_cluster := ?c[k := (p + n) * inverse (?c ! k)],
                 seed_M := matrix_mutate k (seed_M S)\<rparr>"
    by (auto split: if_splits)
  from mutate_step_well_formed [OF wf k] s1 have w1: "well_formed S1" by auto
  have n1: "seed_n S1 = seed_n S" "seed_m S1 = seed_m S" by (simp_all add: S1)
  from wf k have kc: "k < length ?c" by (simp add: well_formed_def)
  have "exchange_monomials (seed_M S1) (seed_cluster S1) k ?js (1, 1) =
     (case exchange_monomials (seed_M S) ?c k ?js (1, 1) of
        Inl e \<Rightarrow> Inl e
      | Inr (p', n') \<Rightarrow> Inr (n', p'))"
  proof (rule exchange_monomials_negated)
    show "length (seed_cluster S1) = length ?c" by (simp add: S1)
  next
    fix j assume "j \<in> set ?js"
    then have j: "j < seed_n S + seed_m S" by simp
    show "entry (seed_M S1) j k = map_option uminus (entry (seed_M S) j k)"
      by (simp add: S1 entry_matrix_mutate [OF wf j k] entry_well_formed [OF wf j k])
  next
    fix j assume "j \<in> set ?js"
    then have j: "j < seed_n S + seed_m S" by simp
    assume "entry (seed_M S) j k \<noteq> Some 0"
    with d have "j \<noteq> k" by (auto simp: entry_well_formed [OF wf j k])
    then show "seed_cluster S1 ! j = ?c ! j" by (simp add: S1)
  qed
  with e1 have e2: "exchange_monomials (seed_M S1) (seed_cluster S1) k ?js (1, 1) = Inr (n, p)"
    by simp
  from mutate_step_eq [OF w1, of k] k n1 e2 s2
  have v: "(p + n) * inverse (?c ! k) \<noteq> 0" and
    S2: "S2 = S1\<lparr>seed_cluster :=
                    (seed_cluster S1)[k := (n + p) * inverse (seed_cluster S1 ! k)],
                  seed_M := matrix_mutate k (seed_M S1)\<rparr>"
    using kc by (auto simp: S1 split: if_splits)
  from v have pn: "p + n \<noteq> 0" by auto
  have eq: "(n + p) * inverse ((p + n) * inverse (?c ! k)) = ?c ! k"
    using pn c1 by (simp add: field_simps)
  have "seed_cluster S1 ! k = (p + n) * inverse (?c ! k)"
    using kc by (simp add: S1)
  then have "(seed_cluster S1)[k := (n + p) * inverse (seed_cluster S1 ! k)] =
      (seed_cluster S1)[k := ?c ! k]"
    by (simp only: eq)
  also have "\<dots> = ?c" by (simp add: S1)
  finally have c: "(seed_cluster S1)[k := (n + p) * inverse (seed_cluster S1 ! k)] = ?c" .
  from wf k have "matrix_mutate k (matrix_mutate k (seed_M S)) = seed_M S"
    by (intro matrix_mutate_involution [where nc = "seed_n S"])
       (simp_all add: well_formed_def nrows_def)
  then have m: "matrix_mutate k (seed_M S1) = seed_M S" by (simp add: S1)
  show ?thesis unfolding S2 c m by (simp add: S1)
qed

text \<open>
  C1, as the claim states it, fails.  On the seed of type \<open>A\<close> of rank 2 with the cluster
  \<open>[x0, -1]\<close> the first \<open>mutate(0)\<close> returns and leaves the variable \<open>0\<close> at vertex 0 (the
  exchange binomial \<open>1 + (-1)\<close> is zero), and the second \<open>mutate(0)\<close> raises
  \<open>ZeroDivisionError\<close>: after the two calls the matrix and the cluster are not what they
  were.
\<close>

theorem C1_zero_exchange_binomial_counterexample:
  "snd (set_cluster [gen 0, const (- 1)] seed_A2) = None \<and>
   well_formed seed_A2_degenerate \<and>
   in_range (seed_n seed_A2_degenerate) 0 \<and>
   seed_M seed_A2_degenerate = \<lparr>ncols = 2, rows = [[0, 1], [- 1, 0]]\<rparr> \<and>
   seed_cluster seed_A2_degenerate = [gen 0, const (- 1)] \<and>
   snd (mutate (Vertex 0) (InplaceBool True) seed_A2_degenerate) = Inr None \<and>
   snd (mutate (Vertex 0) (InplaceBool True)
          (fst (mutate (Vertex 0) (InplaceBool True) seed_A2_degenerate))) =
     Inl ZeroDivisionError \<and>
   seed_M (fst (mutate (Vertex 0) (InplaceBool True)
                  (fst (mutate (Vertex 0) (InplaceBool True) seed_A2_degenerate)))) =
     \<lparr>ncols = 2, rows = [[0, - 1], [1, 0]]\<rparr> \<and>
   seed_cluster (fst (mutate (Vertex 0) (InplaceBool True)
                        (fst (mutate (Vertex 0) (InplaceBool True) seed_A2_degenerate)))) =
     [0, const (- 1)] \<and>
   \<not> rf_equal (gen 0) 0"
  by code_simp

text \<open>
  C1, amended.  Let \<open>k\<close> be an exchangeable vertex of a well-formed seed over a field,
  with \<open>M[k,k] = 0\<close> (as in every skew-symmetrizable matrix).  If \<open>mutate(k)\<close> and then
  again \<open>mutate(k)\<close> both return, that is, if neither divides by zero (the cluster
  variable at \<open>k\<close> and its exchange binomial are not zero), then the exchange matrix and
  the full cluster of \<open>n + m\<close> variables are what they were before the two calls; only
  the cached quiver is cleared.
\<close>

theorem C1_mutating_twice_restores_the_seed:
  fixes S :: "'a::field seed"
  assumes wf: "well_formed S" and k: "in_range (seed_n S) k"
    and d: "rows (seed_M S) ! nat k ! nat k = 0"
    and m1: "mutate (Vertex k) (InplaceBool True) S = (S1, Inr None)"
    and m2: "mutate (Vertex k) (InplaceBool True) S1 = (S2, Inr None)"
  shows "seed_M S2 = seed_M S \<and> seed_cluster S2 = seed_cluster S \<and>
         S2 = S\<lparr>seed_quiver := None\<rparr>"
proof -
  from k have kn: "nat k < seed_n S" by (simp add: in_range_def nat_less_iff)
  from m1 obtain T1 where t1: "mutate_step (nat k) S = Inr T1" and S1: "S1 = T1\<lparr>seed_quiver := None\<rparr>"
    unfolding mutate_vertex_inplace [OF k] by (auto split: sum.splits)
  from mutate_step_attributes [OF t1] have "seed_n S1 = seed_n S" by (simp add: S1)
  with k have k1: "in_range (seed_n S1) k" by simp
  from m2 obtain U where u: "mutate_step (nat k) S1 = Inr U" and S2: "S2 = U\<lparr>seed_quiver := None\<rparr>"
    unfolding mutate_vertex_inplace [OF k1] by (auto split: sum.splits)
  from u obtain T2 where t2: "mutate_step (nat k) T1 = Inr T2" and U: "U = T2\<lparr>seed_quiver := None\<rparr>"
    unfolding S1 mutate_step_quiver by (auto split: sum.splits)
  from mutate_step_twice [OF wf kn d t1 t2] have "T2 = S" .
  then show ?thesis by (simp add: S2 U)
qed

theorem C1_mutating_twice_restores_the_seed_witness:
  "well_formed seed_A2_constants \<and> in_range (seed_n seed_A2_constants) 0 \<and>
   rows (seed_M seed_A2_constants) ! nat 0 ! nat 0 = 0 \<and>
   snd (mutate (Vertex 0) (InplaceBool True) seed_A2_constants) = Inr None \<and>
   seed_cluster (fst (mutate (Vertex 0) (InplaceBool True) seed_A2_constants)) = [3, 5] \<and>
   seed_M (fst (mutate (Vertex 0) (InplaceBool True) seed_A2_constants)) =
     \<lparr>ncols = 2, rows = [[0, - 1], [1, 0]]\<rparr> \<and>
   snd (mutate (Vertex 0) (InplaceBool True)
          (fst (mutate (Vertex 0) (InplaceBool True) seed_A2_constants))) = Inr None \<and>
   seed_M (fst (mutate (Vertex 0) (InplaceBool True)
                  (fst (mutate (Vertex 0) (InplaceBool True) seed_A2_constants)))) =
     seed_M seed_A2_constants \<and>
   seed_cluster (fst (mutate (Vertex 0) (InplaceBool True)
                        (fst (mutate (Vertex 0) (InplaceBool True) seed_A2_constants)))) =
     seed_cluster seed_A2_constants"
proof -
  let ?S1 = "fst (mutate (Vertex 0) (InplaceBool True) seed_A2_constants)"
  let ?S2 = "fst (mutate (Vertex 0) (InplaceBool True) ?S1)"
  have w: "well_formed seed_A2_constants" by code_simp
  have k: "in_range (seed_n seed_A2_constants) 0" by code_simp
  have d: "rows (seed_M seed_A2_constants) ! nat 0 ! nat 0 = 0" by code_simp
  have s1: "snd (mutate (Vertex 0) (InplaceBool True) seed_A2_constants) = Inr None"
    by code_simp
  then have m1: "mutate (Vertex 0) (InplaceBool True) seed_A2_constants = (?S1, Inr None)"
    by (simp add: prod_eq_iff)
  have s2: "snd (mutate (Vertex 0) (InplaceBool True) ?S1) = Inr None"
    by code_simp
  then have m2: "mutate (Vertex 0) (InplaceBool True) ?S1 = (?S2, Inr None)"
    by (simp add: prod_eq_iff)
  have c1: "seed_cluster ?S1 = [3, 5]"
    and c2: "seed_M ?S1 = \<lparr>ncols = 2, rows = [[0, - 1], [1, 0]]\<rparr>"
    by code_simp+
  from C1_mutating_twice_restores_the_seed [OF w k d m1 m2]
  have "seed_M ?S2 = seed_M seed_A2_constants \<and>
        seed_cluster ?S2 = seed_cluster seed_A2_constants" by blast
  with w k d s1 c1 c2 s2 show ?thesis by blast
qed

text \<open>
  The same on the fractions of polynomials: after two mutations at vertex 2, the seed of
  type \<open>A\<close> of rank 3 with principal coefficients has its matrix again, and a cluster
  equal to the initial one in the field.
\<close>

lemma mutating_twice_A3_principal:
  "snd (mutate (VertexList [2, 2]) (InplaceBool True) seed_A3_principal) = Inr None \<and>
   seed_M (fst (mutate (VertexList [2, 2]) (InplaceBool True) seed_A3_principal)) =
     seed_M seed_A3_principal \<and>
   list_all2 rf_equal
     (seed_cluster (fst (mutate (VertexList [2, 2]) (InplaceBool True) seed_A3_principal)))
     (seed_cluster seed_A3_principal)"
  by code_simp

section \<open>The shape of a seed is invariant\<close>

text \<open>
  Seeds built from a matrix are well formed, and \<open>mutate\<close>, \<open>principal_extension\<close> and
  \<open>set_cluster\<close> keep them so.
\<close>

lemma well_formed_ClusterSeed_of_matrix:
  assumes "list_all (\<lambda>r. length r = ncols A) (rows A)" and "ncols A \<le> nrows A"
  shows "well_formed (ClusterSeed (FromMatrix A) is_principal)"
  using assms
  by (simp add: well_formed_def ClusterSeed_of_quiver_def ClusterQuiver_of_matrix_def Let_def
      gens_def nrows_def)

lemma well_formed_ClusterSeed_of_seed:
  "well_formed (ClusterSeed_of_seed S is_principal) = well_formed S"
  by (simp add: well_formed_def ClusterSeed_of_seed_def)

lemma well_formed_mutate:
  assumes "well_formed S" and "mutate sequence inplace S = (S', r)"
  shows "well_formed S' \<and> (\<forall>T. r = Inr (Some T) \<longrightarrow> well_formed T)"
proof (cases "seq_of (seed_n S) sequence")
  case None
  with assms show ?thesis by (auto simp: mutate_invalid_argument)
next
  case (Some seq)
  show ?thesis
  proof (cases "is_bool inplace")
    case False
    with Some assms show ?thesis by (auto simp: mutate_not_boolean)
  next
    case True
    show ?thesis
    proof (cases "filter (\<lambda>v. \<not> in_range (seed_n S) v) seq")
      case (Cons v vs)
      with Some True assms show ?thesis by (auto simp: mutate_invalid_vertex)
    next
      case Nil
      let ?seed = "if truthy inplace then S else ClusterSeed_of_seed S None"
      obtain S1 e where m: "mutate_steps seq ?seed = (S1, e)"
        by (cases "mutate_steps seq ?seed")
      have w: "well_formed ?seed"
        using assms(1) by (simp add: well_formed_ClusterSeed_of_seed)
      from Nil have "list_all (in_range (seed_n ?seed)) seq"
        by (simp add: filter_empty_conv list_all_iff)
      from mutate_steps_well_formed [OF w this m] have "well_formed S1" by simp
      with assms show ?thesis
        unfolding mutate_validated [OF Some True Nil] m
        by (auto split: if_splits option.splits)
    qed
  qed
qed

lemma well_formed_principal_extension:
  assumes "well_formed S" and "principal_extension ignore_coefficients S = Inr T"
  shows "well_formed T"
  using assms
  by (auto simp: principal_extension_def well_formed_def Let_def ClusterSeed_of_quiver_def
      ClusterQuiver_of_matrix_def stack_def identity_matrix_def nrows_def gens_def
      list_all_length nth_append split: if_splits)

lemma well_formed_set_cluster:
  "well_formed S \<Longrightarrow> well_formed (fst (set_cluster cluster S))"
  by (simp add: set_cluster_def well_formed_def)

section \<open>The matrix stays skew-symmetrizable\<close>

text \<open>
  The hypothesis \<open>M[k,k] = 0\<close> of the theorem on two mutations holds for every seed
  whose matrix is skew-symmetrizable, and mutations keep the matrix so.
\<close>

lemma sign_of_partner:
  fixes a a' :: int
  assumes "0 < di" and "0 < dk" and "di * a = - (dk * a')"
  shows "(0 < a \<longleftrightarrow> a' < 0) \<and> (a < 0 \<longleftrightarrow> 0 < a') \<and> (a = 0 \<longleftrightarrow> a' = 0)"
proof -
  have 1: "0 < di * a \<longleftrightarrow> 0 < a" "di * a < 0 \<longleftrightarrow> a < 0" "di * a = 0 \<longleftrightarrow> a = 0"
    using assms(1) by (simp_all add: zero_less_mult_iff mult_less_0_iff)
  have 2: "0 < dk * a' \<longleftrightarrow> 0 < a'" "dk * a' < 0 \<longleftrightarrow> a' < 0" "dk * a' = 0 \<longleftrightarrow> a' = 0"
    using assms(2) by (simp_all add: zero_less_mult_iff mult_less_0_iff)
  from 1 2 assms(3) show ?thesis by linarith
qed

lemma exchange_term_skew:
  fixes a b a' b' :: int
  assumes di: "0 < di" and dj: "0 < dj" and dk: "0 < dk"
    and a: "di * a = - (dk * a')" and b: "dk * b = - (dj * b')"
  shows "di * (sgn a * max 0 (a * b)) = - (dj * (sgn b' * max 0 (b' * a')))"
proof -
  have "dk * (di * (a * b)) = (di * a) * (dk * b)" by (simp add: algebra_simps)
  also have "\<dots> = dk * (dj * (a' * b'))" unfolding a b by (simp add: algebra_simps)
  finally have e: "di * (a * b) = dj * (a' * b')" using dk by simp
  note sa = sign_of_partner [OF di dk a]
  note sb = sign_of_partner [OF dk dj b]
  consider "a = 0 \<or> b = 0" | "0 < a" "0 < b" | "a < 0" "b < 0" | "0 < a" "b < 0" | "a < 0" "0 < b"
    by linarith
  then show ?thesis
  proof cases
    case 1
    with sa sb show ?thesis by auto
  next
    case 2
    with sa sb have "a' < 0" "b' < 0" by auto
    with 2 have "0 < a * b" "0 < b' * a'" by (simp_all add: zero_less_mult_iff)
    with 2 \<open>b' < 0\<close> e show ?thesis by (simp add: max_def mult.commute)
  next
    case 3
    with sa sb have "0 < a'" "0 < b'" by auto
    with 3 have "0 < a * b" "0 < b' * a'" by (simp_all add: zero_less_mult_iff)
    with 3 \<open>0 < b'\<close> e show ?thesis by (simp add: max_def mult.commute)
  next
    case 4
    with sa sb have "a' < 0" "0 < b'" by auto
    with 4 have "a * b < 0" "b' * a' < 0" by (simp_all add: mult_less_0_iff)
    then show ?thesis by (simp add: max_def)
  next
    case 5
    with sa sb have "0 < a'" "b' < 0" by auto
    with 5 have "a * b < 0" "b' * a' < 0" by (simp_all add: mult_less_0_iff)
    then show ?thesis by (simp add: max_def)
  qed
qed

lemma skew_symmetrizable_iff:
  "skew_symmetrizable d S \<longleftrightarrow>
     length d = seed_n S \<and> (\<forall>i<seed_n S. 0 < d ! i) \<and>
     (\<forall>i<seed_n S. \<forall>j<seed_n S.
        int (d ! i) * (rows (seed_M S) ! i ! j) = - (int (d ! j) * (rows (seed_M S) ! j ! i)))"
  unfolding skew_symmetrizable_def list_all_length by (simp cong: conj_cong)

lemma skew_symmetrizable_entries:
  assumes "skew_symmetrizable d S" and "i < seed_n S" and "j < seed_n S"
  shows "int (d ! i) * (rows (seed_M S) ! i ! j) = - (int (d ! j) * (rows (seed_M S) ! j ! i))"
    and "0 < int (d ! i)"
proof -
  from assms(1) have a: "\<forall>i<seed_n S. 0 < d ! i"
    and b: "\<forall>i<seed_n S. \<forall>j<seed_n S.
        int (d ! i) * (rows (seed_M S) ! i ! j) = - (int (d ! j) * (rows (seed_M S) ! j ! i))"
    unfolding skew_symmetrizable_iff by blast+
  from b assms(2,3)
  show "int (d ! i) * (rows (seed_M S) ! i ! j) = - (int (d ! j) * (rows (seed_M S) ! j ! i))"
    by blast
  from a assms(2) have "0 < d ! i" by blast
  then show "0 < int (d ! i)" by simp
qed

lemma skew_symmetrizable_zero_diagonal:
  assumes "skew_symmetrizable d S" and "k < seed_n S"
  shows "rows (seed_M S) ! k ! k = 0"
proof -
  define a where "a = rows (seed_M S) ! k ! k"
  from skew_symmetrizable_entries [OF assms(1) assms(2) assms(2)]
  have "int (d ! k) * a = - (int (d ! k) * a)" and "0 < int (d ! k)"
    unfolding a_def by blast+
  then have "a = 0" by auto
  then show ?thesis by (simp only: a_def)
qed

lemma skew_negated:
  fixes p q u v :: int
  shows "p * u = - (q * v) \<Longrightarrow> p * (- u) = - (q * (- v))"
  by simp

lemma skew_added:
  fixes p q u v U V :: int
  shows "p * u = - (q * v) \<Longrightarrow> p * U = - (q * V) \<Longrightarrow> p * (u + U) = - (q * (v + V))"
  by (simp add: distrib_left)

lemma skew_symmetrizable_step:
  assumes wf: "well_formed S" and k: "k < seed_n S" and sk: "skew_symmetrizable d S"
  shows "skew_symmetrizable d (S\<lparr>seed_cluster := cluster, seed_M := matrix_mutate k (seed_M S)\<rparr>)"
proof -
  let ?M = "rows (seed_M S)"
  let ?S' = "S\<lparr>seed_cluster := cluster, seed_M := matrix_mutate k (seed_M S)\<rparr>"
  have rng: "\<And>i j. i < seed_n S \<Longrightarrow> j < seed_n S \<Longrightarrow>
      i < length ?M \<and> j < length (?M ! i)"
    using wf by (simp add: well_formed_def nrows_def list_all_length)
  have E: "int (d ! i) * (rows (matrix_mutate k (seed_M S)) ! i ! j) =
        - (int (d ! j) * (rows (matrix_mutate k (seed_M S)) ! j ! i))"
    if i: "i < seed_n S" and j: "j < seed_n S" for i j
  proof -
    note eij = skew_symmetrizable_entries(1) [OF sk i j]
    note eik = skew_symmetrizable_entries [OF sk i k]
    note ekj = skew_symmetrizable_entries [OF sk k j]
    note eji = skew_symmetrizable_entries [OF sk j i]
    from rng [OF i j] have L: "rows (matrix_mutate k (seed_M S)) ! i ! j =
        (if i = k \<or> j = k then - (?M ! i ! j)
         else ?M ! i ! j + sgn (?M ! i ! k) * max 0 (?M ! i ! k * (?M ! k ! j)))"
      by (simp add: nth_matrix_mutate)
    from rng [OF j i] have R: "rows (matrix_mutate k (seed_M S)) ! j ! i =
        (if j = k \<or> i = k then - (?M ! j ! i)
         else ?M ! j ! i + sgn (?M ! j ! k) * max 0 (?M ! j ! k * (?M ! k ! i)))"
      by (simp add: nth_matrix_mutate)
    show ?thesis
    proof (cases "i = k \<or> j = k")
      case True
      then have T: "j = k \<or> i = k" by blast
      have "int (d ! i) * (- (?M ! i ! j)) = - (int (d ! j) * (- (?M ! j ! i)))"
        by (rule skew_negated [OF eij])
      then show ?thesis unfolding L R using True T by (simp only: if_True)
    next
      case False
      then have F: "\<not> (j = k \<or> i = k)" by blast
      have t: "int (d ! i) * (sgn (?M ! i ! k) * max 0 (?M ! i ! k * (?M ! k ! j))) =
          - (int (d ! j) * (sgn (?M ! j ! k) * max 0 (?M ! j ! k * (?M ! k ! i))))"
        by (rule exchange_term_skew [OF eik(2) eji(2) ekj(2) eik(1) ekj(1)])
      have "int (d ! i) * (?M ! i ! j + sgn (?M ! i ! k) * max 0 (?M ! i ! k * (?M ! k ! j))) =
          - (int (d ! j) * (?M ! j ! i + sgn (?M ! j ! k) * max 0 (?M ! j ! k * (?M ! k ! i))))"
        by (rule skew_added [OF eij t])
      then show ?thesis unfolding L R using False F by (simp only: if_False)
    qed
  qed
  from sk have len: "length d = seed_n S" and pos: "\<forall>i<seed_n S. 0 < d ! i"
    unfolding skew_symmetrizable_iff by blast+
  have n: "seed_n ?S' = seed_n S" "seed_M ?S' = matrix_mutate k (seed_M S)" by simp_all
  show ?thesis unfolding skew_symmetrizable_iff n using len pos E by blast
qed

lemma skew_symmetrizable_mutate_step:
  assumes "well_formed S" and "k < seed_n S" and "skew_symmetrizable d S"
    and "mutate_step k S = Inr S'"
  shows "skew_symmetrizable d S'"
  using assms(4) skew_symmetrizable_step [OF assms(1,2,3)]
  by (auto simp: mutate_step_def Let_def split: sum.splits prod.splits if_splits)

lemma skew_symmetrizable_mutate_steps:
  "well_formed S \<Longrightarrow> list_all (in_range (seed_n S)) seq \<Longrightarrow> skew_symmetrizable d S \<Longrightarrow>
   mutate_steps seq S = (S', r) \<Longrightarrow> skew_symmetrizable d S'"
proof (induction seq arbitrary: S)
  case Nil
  then show ?case by simp
next
  case (Cons k seq)
  from Cons.prems(2) have k: "nat k < seed_n S" by (simp add: in_range_def nat_less_iff)
  show ?case
  proof (cases "mutate_step (nat k) S")
    case (Inl e)
    with Cons.prems show ?thesis by simp
  next
    case (Inr S1)
    from mutate_step_well_formed [OF Cons.prems(1) k] Inr have w: "well_formed S1" by auto
    from mutate_step_attributes [OF Inr] Cons.prems(2)
    have l: "list_all (in_range (seed_n S1)) seq" by simp
    from skew_symmetrizable_mutate_step [OF Cons.prems(1) k Cons.prems(3) Inr]
    have s: "skew_symmetrizable d S1" .
    from Inr Cons.prems(4) have "mutate_steps seq S1 = (S', r)" by simp
    from Cons.IH [OF w l s this] show ?thesis .
  qed
qed

lemma skew_symmetrizable_quiver [simp]:
  "skew_symmetrizable d (S\<lparr>seed_quiver := q\<rparr>) = skew_symmetrizable d S"
  by (simp add: skew_symmetrizable_def)

lemma skew_symmetrizable_ClusterSeed_of_seed [simp]:
  "skew_symmetrizable d (ClusterSeed_of_seed S is_principal) = skew_symmetrizable d S"
  by (simp add: skew_symmetrizable_def ClusterSeed_of_seed_def)

text \<open>
  Matrix invariant preservation: whatever \<open>mutate\<close> does to a well-formed seed, the
  exchangeable block of its matrix, and of the matrix of the copy it returns, stays
  skew-symmetrizable by the same integers; in particular its diagonal stays zero.
\<close>

lemma skew_symmetrizable_mutate:
  assumes wf: "well_formed S" and sk: "skew_symmetrizable d S"
    and m: "mutate sequence inplace S = (S', r)"
  shows "skew_symmetrizable d S' \<and> (\<forall>T. r = Inr (Some T) \<longrightarrow> skew_symmetrizable d T)"
proof (cases "seq_of (seed_n S) sequence")
  case None
  with m sk show ?thesis by (auto simp: mutate_invalid_argument)
next
  case (Some seq)
  show ?thesis
  proof (cases "is_bool inplace")
    case False
    with Some m sk show ?thesis by (auto simp: mutate_not_boolean)
  next
    case True
    show ?thesis
    proof (cases "filter (\<lambda>v. \<not> in_range (seed_n S) v) seq")
      case (Cons v vs)
      with Some True m sk show ?thesis by (auto simp: mutate_invalid_vertex)
    next
      case Nil
      let ?seed = "if truthy inplace then S else ClusterSeed_of_seed S None"
      obtain S1 e where s: "mutate_steps seq ?seed = (S1, e)"
        by (cases "mutate_steps seq ?seed")
      have w: "well_formed ?seed"
        using wf by (simp add: well_formed_ClusterSeed_of_seed)
      have k: "skew_symmetrizable d ?seed" using sk by simp
      from Nil have "list_all (in_range (seed_n ?seed)) seq"
        by (simp add: filter_empty_conv list_all_iff)
      from skew_symmetrizable_mutate_steps [OF w this k s]
      have "skew_symmetrizable d S1" .
      with m sk show ?thesis
        unfolding mutate_validated [OF Some True Nil] s
        by (auto split: if_splits option.splits)
    qed
  qed
qed

lemma skew_symmetrizable_scenarios:
  "skew_symmetrizable [1, 1] seed_A2 \<and> skew_symmetrizable [1, 1, 1] seed_A3 \<and>
   skew_symmetrizable [1, 1, 1, 1] seed_A4 \<and> skew_symmetrizable [1, 1, 1] seed_A3_principal"
  by code_simp

end
